theory Spec2Isabelle
  imports Main "HOL-Library.Multiset"
begin

section \<open>JavaScript strings\<close>

text \<open>
  Strings are character lists; a character is a code unit below 256. The helpers below
  are the \<^verbatim>\<open>String.prototype\<close> methods the sources call, on the arguments they are
  called with.
\<close>

definition startsWith :: "string \<Rightarrow> string \<Rightarrow> bool" where
  "startsWith s p = (take (length p) s = p)"

definition endsWith :: "string \<Rightarrow> string \<Rightarrow> bool" where
  "endsWith s p = (length p \<le> length s \<and> drop (length s - length p) s = p)"

text \<open>\<^verbatim>\<open>s.substr(start, len)\<close> for a non-negative start: short at the end of the string.\<close>

definition substr :: "string \<Rightarrow> nat \<Rightarrow> nat \<Rightarrow> string" where
  "substr s start len = take len (drop start s)"

text \<open>\<^verbatim>\<open>s.slice(0, n)\<close>.\<close>

definition slice0 :: "string \<Rightarrow> nat \<Rightarrow> string" where
  "slice0 s n = take n s"

text \<open>
  \<^verbatim>\<open>s.replace(pat, "")\<close> with a non-empty string pattern: the first occurrence of
  \<open>pat\<close>, wherever it is, is removed; a string without it is returned unchanged.
\<close>

fun remove_first :: "string \<Rightarrow> string \<Rightarrow> string" where
  "remove_first pat [] = []"
| "remove_first pat (c # cs) =
     (if startsWith (c # cs) pat then drop (length pat) (c # cs)
      else c # remove_first pat cs)"

text \<open>\<^verbatim>\<open>s.replace(/[...]/g, "")\<close> with a character class: every such character is removed.\<close>

definition remove_chars :: "char set \<Rightarrow> string \<Rightarrow> string" where
  "remove_chars cs s = filter (\<lambda>c. c \<notin> cs) s"

text \<open>\<^verbatim>\<open>args.join(" ")\<close>.\<close>

fun join_sp :: "string list \<Rightarrow> string" where
  "join_sp [] = []"
| "join_sp [a] = a"
| "join_sp (a # b # bs) = a @ '' '' @ join_sp (b # bs)"

definition digit_char :: "nat \<Rightarrow> char" where
  "digit_char n = ''0123456789'' ! (n mod 10)"

text \<open>Decimal rendering of a non-negative integer, as a template literal prints it.\<close>

fun show_nat :: "nat \<Rightarrow> string" where
  "show_nat n = (if n < 10 then [digit_char n] else show_nat (n div 10) @ [digit_char n])"

declare show_nat.simps [simp del]

text \<open>
  \<^verbatim>\<open>path.join(dir, name)\<close> for a normalised directory and a single path segment, and
  \<^verbatim>\<open>path.basename(key)\<close> for a key that does not end in a slash.
\<close>

definition path_join :: "string \<Rightarrow> string \<Rightarrow> string" where
  "path_join dir name = dir @ ''/'' @ name"

definition basename :: "string \<Rightarrow> string" where
  "basename key = rev (takeWhile (\<lambda>c. c \<noteq> CHR ''/'') (rev key))"

section \<open>Effects: traces of external operations\<close>

text \<open>
  Every awaited operation on the outside world is an \<open>action\<close>. A procedure denotes a
  \<open>run\<close>: the events that happened, in order, and either the value returned or
  the error thrown. The informational \<^verbatim>\<open>log(...)\<close> lines are not part of the trace; what is
  written to the error stream is.

  \<open>ProcessEnded\<close> is not an exception: it marks a run in which the process has ended
  before the procedure returned, so that nothing after it happens and no handler runs.
  \<open>Uncaught c args\<close> is the report node prints for an \<^verbatim>\<open>'error'\<close> event of a child
  process that has no listener: the error object, with the command and its
  \<^verbatim>\<open>spawnargs\<close> as they were passed.
\<close>

datatype action =
    S3Get string
  | S3Put string
  | S3List "string option"
  | S3Delete string
  | FsWriteFile string
  | FsReadFile string
  | FsMkdir string
  | FsUnlink string
  | FsRm string
  | FsReaddir string
  | FsAccess string
  | HttpGet string

datatype js_error =
    Error string
  | IOFailure action
  | TypeError
  | RangeError
  | ProcessEnded

datatype event =
    Do action
  | Spawn string "string list"
  | LogError string js_error
  | LogErrorText string
  | Uncaught string "string list"
  | Exit nat

text \<open>
  One entry of a store listing. \<open>LastModified\<close> is a time value in milliseconds, or
  \<open>None\<close> when the response leaves it out.
\<close>

record s3_object =
  Key :: string
  Size :: int
  LastModified :: "int option"

text \<open>
  The environment of one run: which operations throw, which commands cannot be spawned
  at all (the child process emits \<^verbatim>\<open>'error'\<close>), how spawned processes exit (\<open>None\<close>
  for a process killed by a signal, whose exit code is \<^verbatim>\<open>null\<close>), and what the
  store's list call answers (\<open>None\<close> for a response without \<^verbatim>\<open>Contents\<close>).
\<close>

record env =
  io_fails :: "action \<Rightarrow> bool"
  spawn_error :: "string \<Rightarrow> string list \<Rightarrow> bool"
  exit_code :: "string \<Rightarrow> string list \<Rightarrow> nat option"
  s3_contents :: "s3_object list option"

type_synonym 'a run = "event list \<times> (js_error + 'a)"

definition ret :: "'a \<Rightarrow> 'a run" where
  "ret x = ([], Inr x)"

definition throw :: "js_error \<Rightarrow> 'a run" where
  "throw e = ([], Inl e)"

definition bind :: "'a run \<Rightarrow> ('a \<Rightarrow> 'b run) \<Rightarrow> 'b run" where
  "bind m f =
     (case m of
        (t, Inl e) \<Rightarrow> (t, Inl e)
      | (t, Inr x) \<Rightarrow> (case f x of (t', r) \<Rightarrow> (t @ t', r)))"

text \<open>
  \<^verbatim>\<open>try { m } catch (error) { h(error) }\<close>. The handler runs on what \<open>m\<close> threw; it
  does not run when the process ended inside \<open>m\<close>.
\<close>

definition catch :: "'a run \<Rightarrow> (js_error \<Rightarrow> 'a run) \<Rightarrow> 'a run" where
  "catch m h =
     (case m of
        (t, Inl e) \<Rightarrow>
          if e = ProcessEnded then (t, Inl e) else (case h e of (t', r) \<Rightarrow> (t @ t', r))
      | (t, Inr x) \<Rightarrow> (t, Inr x))"

text \<open>A block of awaited statements: each runs after the one before it returned.\<close>

fun seq :: "unit run list \<Rightarrow> unit run" where
  "seq [] = ret ()"
| "seq (m # ms) = bind m (\<lambda>_. seq ms)"

definition perform :: "env \<Rightarrow> action \<Rightarrow> unit run" where
  "perform e a = ([Do a], if io_fails e a then Inl (IOFailure a) else Inr ())"

definition emit :: "event \<Rightarrow> unit run" where
  "emit ev = ([ev], Inr ())"

section \<open>Redaction and the error stream\<close>

text \<open>
  The two backup variants are \<^verbatim>\<open>src/index.js\<close> (\<open>IndexJs\<close>) and
  \<^verbatim>\<open>src/unnamed/part_000\<close> (\<open>Part000\<close>); \<^verbatim>\<open>src/restore.js\<close> (\<open>RestoreJs\<close>)
  shares the helpers of the first. Where the files differ, the definition takes the variant.
\<close>

datatype variant = IndexJs | Part000 | RestoreJs

text \<open>
  The class \<^verbatim>\<open>\s\<close> of a regular expression, among the code units below 256: tab, line
  feed, vertical tab, form feed, carriage return, space and the no-break space.
\<close>

definition is_space :: "char \<Rightarrow> bool" where
  "is_space c =
     (c \<in> set [CHR '' '', CHR 0x09, CHR 0x0A, CHR 0x0B, CHR 0x0C, CHR 0x0D, CHR 0xA0])"

text \<open>
  \<^verbatim>\<open>message.replace(/--password=[^\s]+/g, '--password=***')\<close>: at each match the
  longest non-empty run of non-space characters after the marker is replaced, and the
  search goes on after the match.
\<close>

function sanitize :: "string \<Rightarrow> string" where
  "sanitize [] = []"
| "sanitize (c # cs) =
     (let s = c # cs; rest = drop 11 s in
      if startsWith s ''--password='' \<and> takeWhile (\<lambda>x. \<not> is_space x) rest \<noteq> []
      then ''--password=***'' @ sanitize (dropWhile (\<lambda>x. \<not> is_space x) rest)
      else c # sanitize cs)"
  by pat_completeness auto
termination
  by (relation "measure length")
     (auto simp: less_Suc_eq_le intro: le_trans [OF length_dropWhile_le])

declare sanitize.simps [simp del]

definition sanitizeError :: "js_error \<Rightarrow> js_error" where
  "sanitizeError e = (case e of Error m \<Rightarrow> Error (sanitize m) | _ \<Rightarrow> e)"

definition logError :: "variant \<Rightarrow> string \<Rightarrow> js_error \<Rightarrow> unit run" where
  "logError v label e =
     emit (LogError label (if v = Part000 then e else sanitizeError e))"

definition show_code :: "nat option \<Rightarrow> string" where
  "show_code c = (case c of None \<Rightarrow> ''null'' | Some n \<Rightarrow> show_nat n)"

definition safeArgs :: "variant \<Rightarrow> string list \<Rightarrow> string list" where
  "safeArgs v args =
     (if v = Part000 then args
      else map (\<lambda>arg. if startsWith arg ''--password='' then ''--password=***'' else arg) args)"

text \<open>
  \<^verbatim>\<open>runCommand\<close>. The promise settles on the \<^verbatim>\<open>'close'\<close> event: resolved for exit
  code 0, rejected with the message otherwise. No listener is attached for \<^verbatim>\<open>'error'\<close>:
  when the command cannot be spawned, the event is an uncaught exception, node prints it
  and the process exits with code 1; the promise is never settled.
\<close>

definition runCommand :: "variant \<Rightarrow> env \<Rightarrow> string \<Rightarrow> string list \<Rightarrow> unit run" where
  "runCommand v e command args =
     (if spawn_error e command args
      then ([Spawn command args, Uncaught command args, Exit 1], Inl ProcessEnded)
      else
        ([Spawn command args],
         if exit_code e command args = Some 0 then Inr ()
         else Inl (Error (command @ '' '' @ join_sp (safeArgs v args) @
                          '' failed with exit code '' @ show_code (exit_code e command args)))))"

section \<open>Dates\<close>

text \<open>
  A time value is an integer number of milliseconds since 1970-01-01T00:00:00Z. The
  functions below are the abstract operations of the ECMAScript specification
  (Day, DayFromYear, YearFromTime, MonthFromTime, DateFromTime, MakeDay, MakeTime) on
  which \<^verbatim>\<open>Date.prototype.toISOString\<close> and \<^verbatim>\<open>new Date(string)\<close> are built.
\<close>

definition msPerDay :: int where
  "msPerDay = 86400000"

definition Day :: "int \<Rightarrow> int" where
  "Day t = t div msPerDay"

definition TimeWithinDay :: "int \<Rightarrow> int" where
  "TimeWithinDay t = t mod msPerDay"

definition InLeapYear :: "int \<Rightarrow> bool" where
  "InLeapYear y = (y mod 4 = 0 \<and> (y mod 100 \<noteq> 0 \<or> y mod 400 = 0))"

definition DaysInYear :: "int \<Rightarrow> int" where
  "DaysInYear y = (if InLeapYear y then 366 else 365)"

definition DayFromYear :: "int \<Rightarrow> int" where
  "DayFromYear y =
     365 * (y - 1970) + (y - 1969) div 4 - (y - 1901) div 100 + (y - 1601) div 400"

text \<open>
  YearFromTime is specified as the largest \<open>y\<close> with \<open>DayFromYear y \<le> Day t\<close>. It is
  computed from the mean length of a year (146097 days in 400 years), which is off by
  at most one; \<open>YearFromDay_bounds\<close> below proves that the result is that year.
\<close>

definition YearFromDay :: "int \<Rightarrow> int" where
  "YearFromDay d =
     (let y0 = 1970 + (400 * d) div 146097 in
      if d < DayFromYear y0 then y0 - 1
      else if DayFromYear (y0 + 1) \<le> d then y0 + 1
      else y0)"

definition YearFromTime :: "int \<Rightarrow> int" where
  "YearFromTime t = YearFromDay (Day t)"

definition DayWithinYear :: "int \<Rightarrow> int" where
  "DayWithinYear t = Day t - DayFromYear (YearFromTime t)"

text \<open>The number of days of the year before month \<open>m\<close> (0 = January, 12 = the year's end).\<close>

definition DaysBeforeMonth :: "bool \<Rightarrow> nat \<Rightarrow> int" where
  "DaysBeforeMonth leap m =
     [0, 31, 59, 90, 120, 151, 181, 212, 243, 273, 304, 334, 365] ! m
       + (if leap \<and> 2 \<le> m then 1 else 0)"

definition MonthFromDay :: "bool \<Rightarrow> int \<Rightarrow> nat" where
  "MonthFromDay leap d =
     (let l = (if leap then 1 else 0) in
      if d < 31 then 0
      else if d < 59 + l then 1
      else if d < 90 + l then 2
      else if d < 120 + l then 3
      else if d < 151 + l then 4
      else if d < 181 + l then 5
      else if d < 212 + l then 6
      else if d < 243 + l then 7
      else if d < 273 + l then 8
      else if d < 304 + l then 9
      else if d < 334 + l then 10
      else 11)"

definition MonthFromTime :: "int \<Rightarrow> nat" where
  "MonthFromTime t = MonthFromDay (InLeapYear (YearFromTime t)) (DayWithinYear t)"

definition DateFromTime :: "int \<Rightarrow> int" where
  "DateFromTime t =
     DayWithinYear t - DaysBeforeMonth (InLeapYear (YearFromTime t)) (MonthFromTime t) + 1"

definition HourFromTime :: "int \<Rightarrow> int" where
  "HourFromTime t = (t div 3600000) mod 24"

definition MinFromTime :: "int \<Rightarrow> int" where
  "MinFromTime t = (t div 60000) mod 60"

definition SecFromTime :: "int \<Rightarrow> int" where
  "SecFromTime t = (t div 1000) mod 60"

definition msFromTime :: "int \<Rightarrow> int" where
  "msFromTime t = t mod 1000"

definition MakeTime :: "int \<Rightarrow> int \<Rightarrow> int \<Rightarrow> int \<Rightarrow> int" where
  "MakeTime h m s ms = h * 3600000 + m * 60000 + s * 1000 + ms"

text \<open>MakeDay for a month number in \<open>0..11\<close>.\<close>

definition MakeDay :: "int \<Rightarrow> nat \<Rightarrow> int \<Rightarrow> int" where
  "MakeDay y m dt = DayFromYear y + DaysBeforeMonth (InLeapYear y) m + dt - 1"

definition MakeDate :: "int \<Rightarrow> int \<Rightarrow> int" where
  "MakeDate day time = day * msPerDay + time"

text \<open>The last \<open>k\<close> decimal digits of \<open>n\<close>, zero-padded.\<close>

fun pad :: "nat \<Rightarrow> nat \<Rightarrow> string" where
  "pad 0 n = []"
| "pad (Suc k) n = pad k (n div 10) @ [digit_char n]"

text \<open>
  \<^verbatim>\<open>toISOString()\<close> of a valid date: \<^verbatim>\<open>YYYY-MM-DDTHH:mm:ss.sssZ\<close> in UTC, with the
  expanded year \<^verbatim>\<open>\<plusminus>YYYYYY\<close> outside the years 0 to 9999.
\<close>

definition yearString :: "int \<Rightarrow> string" where
  "yearString y =
     (if 0 \<le> y \<and> y \<le> 9999 then pad 4 (nat y)
      else (if y < 0 then ''-'' else ''+'') @ pad 6 (nat \<bar>y\<bar>))"

definition toISOString :: "int \<Rightarrow> string" where
  "toISOString t =
     yearString (YearFromTime t) @ ''-'' @ pad 2 (MonthFromTime t + 1) @ ''-'' @
     pad 2 (nat (DateFromTime t)) @ ''T'' @ pad 2 (nat (HourFromTime t)) @ '':'' @
     pad 2 (nat (MinFromTime t)) @ '':'' @ pad 2 (nat (SecFromTime t)) @ ''.'' @
     pad 3 (nat (msFromTime t)) @ ''Z''"

text \<open>\<^verbatim>\<open>formatDate\<close> and \<^verbatim>\<open>formatDateTime\<close> of \<^verbatim>\<open>index.js\<close>.\<close>

definition formatDate :: "int \<Rightarrow> string" where
  "formatDate t = remove_chars {CHR ''-''} (slice0 (toISOString t) 10)"

definition is_digit :: "char \<Rightarrow> bool" where
  "is_digit c = (c \<in> set ''0123456789'')"

text \<open>\<^verbatim>\<open>s.replace(/\.\d{3}Z$/, "")\<close>.\<close>

definition remove_ms_suffix :: "string \<Rightarrow> string" where
  "remove_ms_suffix s =
     (let n = length s; tl5 = drop (n - 5) s in
      if 5 \<le> n \<and> tl5 ! 0 = CHR ''.'' \<and> is_digit (tl5 ! 1) \<and> is_digit (tl5 ! 2)
         \<and> is_digit (tl5 ! 3) \<and> tl5 ! 4 = CHR ''Z''
      then take (n - 5) s else s)"

definition formatDateTime :: "int \<Rightarrow> string" where
  "formatDateTime t =
     remove_ms_suffix (remove_chars {CHR ''-'', CHR '':'', CHR ''T''} (slice0 (toISOString t) 19))"

text \<open>
  \<^verbatim>\<open>new Date(string)\<close>. A string in the date-time format \<^verbatim>\<open>YYYY-MM-DDTHH:mm:ss\<close>
  has no offset and is read as local time; the date-only form \<^verbatim>\<open>YYYY-MM-DD\<close> is
  read as UTC. The host decides the local offset (\<open>localTZA\<close>, milliseconds east of
  UTC at a given local time). What the engine makes of any other string is
  implementation-defined: it is the host's \<open>legacy_parse\<close>, about which nothing is
  assumed. So is the order in which the engine's sort leaves an array when the
  comparator is not consistent, as it is when it meets an \<^verbatim>\<open>Invalid Date\<close>: that is
  the host's \<open>engine_sort\<close>, about which nothing is assumed either.
\<close>

text \<open>
  A date object is its time value; \<open>None\<close> is the \<^verbatim>\<open>Invalid Date\<close>, whose time
  value is \<^verbatim>\<open>NaN\<close>.
\<close>

type_synonym date = "int option"

text \<open>The records \<^verbatim>\<open>listBackups\<close> returns.\<close>

record backup =
  key :: string
  filename :: string
  size_bytes :: int
  date :: date
  isIncremental :: bool
  lastModified :: date

record host =
  localTZA :: "int \<Rightarrow> int"
  legacy_parse :: "string \<Rightarrow> int option"
  engine_sort :: "backup list \<Rightarrow> backup list"

definition digit_val :: "char \<Rightarrow> nat" where
  "digit_val c = length (takeWhile (\<lambda>d. d \<noteq> c) ''0123456789'')"

definition parse_nat :: "string \<Rightarrow> nat option" where
  "parse_nat s =
     (if s \<noteq> [] \<and> list_all is_digit s
      then Some (foldl (\<lambda>a c. 10 * a + digit_val c) 0 s) else None)"

definition DaysInMonth :: "int \<Rightarrow> nat \<Rightarrow> int" where
  "DaysInMonth y m = DaysBeforeMonth (InLeapYear y) (Suc m) - DaysBeforeMonth (InLeapYear y) m"

definition iso_date :: "string \<Rightarrow> int option" where
  "iso_date s =
     (if length s = 10 \<and> s ! 4 = CHR ''-'' \<and> s ! 7 = CHR ''-'' then
        (case (parse_nat (take 4 s), parse_nat (take 2 (drop 5 s)), parse_nat (take 2 (drop 8 s))) of
           (Some y, Some m, Some d) \<Rightarrow>
             if 1 \<le> m \<and> m \<le> 12 \<and> 1 \<le> d \<and> int d \<le> DaysInMonth (int y) (m - 1)
             then Some (MakeDay (int y) (m - 1) (int d)) else None
         | _ \<Rightarrow> None)
      else None)"

definition iso_time :: "string \<Rightarrow> int option" where
  "iso_time s =
     (if length s = 8 \<and> s ! 2 = CHR '':'' \<and> s ! 5 = CHR '':'' then
        (case (parse_nat (take 2 s), parse_nat (take 2 (drop 3 s)), parse_nat (take 2 (drop 6 s))) of
           (Some h, Some m, Some sec) \<Rightarrow>
             if h \<le> 23 \<and> m \<le> 59 \<and> sec \<le> 59
             then Some (MakeTime (int h) (int m) (int sec) 0) else None
         | _ \<Rightarrow> None)
      else None)"

definition iso_parse :: "host \<Rightarrow> string \<Rightarrow> int option" where
  "iso_parse h s =
     (if length s = 10 then
        (case iso_date s of Some d \<Rightarrow> Some (MakeDate d 0) | None \<Rightarrow> None)
      else if length s = 19 \<and> s ! 10 = CHR ''T'' then
        (case (iso_date (take 10 s), iso_time (drop 11 s)) of
           (Some d, Some tm) \<Rightarrow> (let t = MakeDate d tm in Some (t - localTZA h t))
         | _ \<Rightarrow> None)
      else None)"

definition new_Date :: "host \<Rightarrow> string \<Rightarrow> date" where
  "new_Date h s = (case iso_parse h s of Some t \<Rightarrow> Some t | None \<Rightarrow> legacy_parse h s)"

section \<open>The restore tool: records and the merge pipeline\<close>

text \<open>
  The \<^verbatim>\<open>config\<close> objects of the three files, as one record: the restore tool reads
  \<open>restoreRoot\<close> and \<open>s3BackupDir\<close>, the schedulers everything but \<open>restoreRoot\<close>
  (and \<^verbatim>\<open>part_000\<close> has no \<open>dbPort\<close>).
\<close>

record config =
  dbUser :: string
  dbPassword :: string
  dbHost :: string
  dbPort :: string
  s3BackupDir :: string
  healthCheckUrl :: string
  retentionDays :: int
  backupRoot :: string
  restoreRoot :: string

definition downloadFromS3 :: "env \<Rightarrow> string \<Rightarrow> string \<Rightarrow> unit run" where
  "downloadFromS3 e k localPath =
     catch (seq [perform e (S3Get k), perform e (FsWriteFile localPath)])
           (\<lambda>err. bind (logError RestoreJs ''Error downloading from S3:'' err) (\<lambda>_. throw err))"

text \<open>The body of the loop \<^verbatim>\<open>for (let i = 1; i < backupsToRestore.length; i++)\<close>.\<close>

fun applyIncrementals :: "env \<Rightarrow> config \<Rightarrow> string \<Rightarrow> nat \<Rightarrow> backup list \<Rightarrow> unit run" where
  "applyIncrementals e cfg baseDir i [] = ret ()"
| "applyIncrementals e cfg baseDir i (incBackup # rest) =
     (let incBackupPath = path_join (restoreRoot cfg) (filename incBackup);
          incDir = path_join (restoreRoot cfg) (''inc_'' @ show_nat i)
      in seq
        [ downloadFromS3 e (key incBackup) incBackupPath,
          perform e (FsMkdir incDir),
          runCommand RestoreJs e ''tar'' [''xzf'', incBackupPath, ''-C'', incDir],
          perform e (FsUnlink incBackupPath),
          runCommand RestoreJs e ''xtrabackup''
            [''--prepare'', ''--apply-log-only'',
             ''--target-dir='' @ baseDir, ''--incremental-dir='' @ incDir],
          perform e (FsRm incDir),
          applyIncrementals e cfg baseDir (Suc i) rest ])"

definition restoreBackups :: "env \<Rightarrow> config \<Rightarrow> backup list \<Rightarrow> unit run" where
  "restoreBackups e cfg backupsToRestore =
     (let baseDir = path_join (restoreRoot cfg) ''base'' in
      bind (perform e (FsMkdir baseDir)) (\<lambda>_.
      case backupsToRestore of
        [] \<Rightarrow> throw TypeError
      | fullBackup # incs \<Rightarrow>
          (let fullBackupPath = path_join (restoreRoot cfg) (filename fullBackup) in
           seq
             [ downloadFromS3 e (key fullBackup) fullBackupPath,
               runCommand RestoreJs e ''tar'' [''xzf'', fullBackupPath, ''-C'', baseDir],
               perform e (FsUnlink fullBackupPath),
               (if length backupsToRestore > 1
                then runCommand RestoreJs e ''xtrabackup''
                       [''--prepare'', ''--apply-log-only'', ''--target-dir='' @ baseDir]
                else ret ()),
               applyIncrementals e cfg baseDir 1 incs,
               runCommand RestoreJs e ''xtrabackup''
                 [''--prepare'', ''--target-dir='' @ baseDir] ])))"

text \<open>
  The merge invocations of a trace: every spawn of the engine with \<^verbatim>\<open>--prepare\<close>,
  read back as (log-only?, incremental directory).
\<close>

definition arg_value :: "string \<Rightarrow> string list \<Rightarrow> string option" where
  "arg_value flag args =
     (case filter (\<lambda>a. startsWith a flag) args of
        [] \<Rightarrow> None | a # _ \<Rightarrow> Some (drop (length flag) a))"

record merge =
  logOnly :: bool
  target :: "string option"
  incremental :: "string option"

fun merges :: "event list \<Rightarrow> merge list" where
  "merges [] = []"
| "merges (Spawn c args # evs) =
     (if c = ''xtrabackup'' \<and> ''--prepare'' \<in> set args
      then \<lparr> logOnly = (''--apply-log-only'' \<in> set args),
             target = arg_value ''--target-dir='' args,
             incremental = arg_value ''--incremental-dir='' args \<rparr> # merges evs
      else merges evs)"
| "merges (_ # evs) = merges evs"

text \<open>An environment in which no operation fails.\<close>

definition all_ok :: "env \<Rightarrow> bool" where
  "all_ok e =
     ((\<forall>a. \<not> io_fails e a) \<and> (\<forall>c args. \<not> spawn_error e c args) \<and>
      (\<forall>c args. exit_code e c args = Some 0))"

definition ok_env :: env where
  "ok_env =
     \<lparr> io_fails = (\<lambda>_. False), spawn_error = (\<lambda>_ _. False), exit_code = (\<lambda>_ _. Some 0),
       s3_contents = None \<rparr>"

text \<open>The merge invocations the pipeline is made of, on the working base directory.\<close>

definition base_merge :: "config \<Rightarrow> bool \<Rightarrow> merge" where
  "base_merge cfg lo =
     \<lparr> logOnly = lo, target = Some (path_join (restoreRoot cfg) ''base''), incremental = None \<rparr>"

definition inc_merge :: "config \<Rightarrow> bool \<Rightarrow> nat \<Rightarrow> merge" where
  "inc_merge cfg lo i =
     \<lparr> logOnly = lo, target = Some (path_join (restoreRoot cfg) ''base''),
       incremental = Some (path_join (restoreRoot cfg) (''inc_'' @ show_nat i)) \<rparr>"

text \<open>
  The merge sequence as the specification words it for a chain with \<open>k \<ge> 1\<close>
  incrementals: log-only on the base alone, log-only for \<open>inc_1 .. inc_(k-1)\<close>, and
  one finalizing merge that takes the last incremental.
\<close>

definition spec_merges :: "config \<Rightarrow> nat \<Rightarrow> merge list" where
  "spec_merges cfg k =
     [base_merge cfg True] @ map (inc_merge cfg True) [1 ..< k] @ [inc_merge cfg False k]"

text \<open>The chain of the specification's scenario, and a restore configuration.\<close>

definition cfg0 :: config where
  "cfg0 = \<lparr> dbUser = ''root'', dbPassword = ''hunter2'', dbHost = ''mysql'', dbPort = ''3306'',
     s3BackupDir = ''mysql-backups/'', healthCheckUrl = ''https://hc-ping.com/uuid'',
     retentionDays = 30, backupRoot = ''/tmp/mysql-backup-1'',
     restoreRoot = ''/work/mysql-restore-20240102T000000'' \<rparr>"

definition full_0101 :: backup where
  "full_0101 = \<lparr> key = ''full_backup_20240101.tar.gz'', filename = ''full_backup_20240101.tar.gz'',
     size_bytes = 2097152, date = Some 1704067200000, isIncremental = False,
     lastModified = Some 1704067260000 \<rparr>"

definition inc_0101_06 :: backup where
  "inc_0101_06 = \<lparr> key = ''inc_backup_20240101060000.tar.gz'',
     filename = ''inc_backup_20240101060000.tar.gz'',
     size_bytes = 204800, date = Some 1704088800000, isIncremental = True,
     lastModified = Some 1704088860000 \<rparr>"

definition inc_0101_12 :: backup where
  "inc_0101_12 = \<lparr> key = ''inc_backup_20240101120000.tar.gz'',
     filename = ''inc_backup_20240101120000.tar.gz'',
     size_bytes = 153600, date = Some 1704110400000, isIncremental = True,
     lastModified = Some 1704110460000 \<rparr>"

section \<open>The restore tool: catalog and chain resolution\<close>

text \<open>
  \<^verbatim>\<open>Array.prototype.sort(cmp)\<close> with a consistent comparator, one that orders the
  elements by a total preorder: the sort is stable, so its result is the one list that
  is ordered and keeps elements that compare equal in their former order, whatever the
  algorithm. It is computed here by insertion; the element \<open>x\<close> goes behind \<open>y\<close> when
  \<open>cmp x y > 0\<close>. The comparators of the sources subtract dates, and are consistent
  when every date is valid.
\<close>

definition goes_after :: "('a \<Rightarrow> 'a \<Rightarrow> int option) \<Rightarrow> 'a \<Rightarrow> 'a \<Rightarrow> bool" where
  "goes_after cmp x y = (case cmp x y of Some v \<Rightarrow> 0 < v | None \<Rightarrow> False)"

fun js_insert :: "('a \<Rightarrow> 'a \<Rightarrow> int option) \<Rightarrow> 'a \<Rightarrow> 'a list \<Rightarrow> 'a list" where
  "js_insert cmp x [] = [x]"
| "js_insert cmp x (y # ys) =
     (if goes_after cmp x y then y # js_insert cmp x ys else x # y # ys)"

definition js_sort :: "('a \<Rightarrow> 'a \<Rightarrow> int option) \<Rightarrow> 'a list \<Rightarrow> 'a list" where
  "js_sort cmp xs = foldr (js_insert cmp) xs []"

text \<open>\<^verbatim>\<open>a - b\<close>, \<^verbatim>\<open>a >= b\<close> and \<^verbatim>\<open>a <= b\<close> on dates: comparisons with \<^verbatim>\<open>NaN\<close> are false.\<close>

definition date_minus :: "date \<Rightarrow> date \<Rightarrow> int option" where
  "date_minus a b = (case (a, b) of (Some x, Some y) \<Rightarrow> Some (x - y) | _ \<Rightarrow> None)"

definition date_ge :: "date \<Rightarrow> date \<Rightarrow> bool" where
  "date_ge a b = (case (a, b) of (Some x, Some y) \<Rightarrow> y \<le> x | _ \<Rightarrow> False)"

definition date_le :: "date \<Rightarrow> date \<Rightarrow> bool" where
  "date_le a b = (case (a, b) of (Some x, Some y) \<Rightarrow> x \<le> y | _ \<Rightarrow> False)"

text \<open>\<^verbatim>\<open>s3BackupDir.replace(/^\/+|\/+$/g, "")\<close>.\<close>

definition strip_slashes :: "string \<Rightarrow> string" where
  "strip_slashes s =
     rev (dropWhile (\<lambda>c. c = CHR ''/'') (rev (dropWhile (\<lambda>c. c = CHR ''/'') s)))"

text \<open>The callback of \<^verbatim>\<open>.map\<close> in \<^verbatim>\<open>listBackups\<close>: one store object to one record.\<close>

definition to_backup :: "host \<Rightarrow> s3_object \<Rightarrow> backup" where
  "to_backup h obj =
     (let filename = basename (Key obj);
          isIncremental = startsWith filename ''inc_backup_'';
          date =
            (if isIncremental then
               (let dateStr = remove_first ''.tar.gz'' (remove_first ''inc_backup_'' filename) in
                new_Date h
                  (substr dateStr 0 4 @ ''-'' @ substr dateStr 4 2 @ ''-'' @ substr dateStr 6 2 @ ''T'' @
                   substr dateStr 8 2 @ '':'' @ substr dateStr 10 2 @ '':'' @ substr dateStr 12 2))
             else
               (let dateStr = remove_first ''.tar.gz'' (remove_first ''full_backup_'' filename) in
                new_Date h
                  (substr dateStr 0 4 @ ''-'' @ substr dateStr 4 2 @ ''-'' @ substr dateStr 6 2)))
      in \<lparr> key = Key obj, filename = filename, size_bytes = Size obj, date = date,
           isIncremental = isIncremental, lastModified = LastModified obj \<rparr>)"

text \<open>
  The catalog before the cap: filter, map, sort descending by derived date. With an
  \<^verbatim>\<open>Invalid Date\<close> among the records the comparator returns \<^verbatim>\<open>NaN\<close> and the order
  is the engine's.
\<close>

definition sorted_backups :: "host \<Rightarrow> s3_object list \<Rightarrow> backup list" where
  "sorted_backups h contents =
     (let backups = map (to_backup h) (filter (\<lambda>obj. endsWith (Key obj) ''.tar.gz'') contents)
      in if list_all (\<lambda>b. date b \<noteq> None) backups
         then js_sort (\<lambda>a b. date_minus (date b) (date a)) backups
         else engine_sort h backups)"

definition list_prefix :: "config \<Rightarrow> string" where
  "list_prefix cfg =
     (if s3BackupDir cfg \<noteq> [] then strip_slashes (s3BackupDir cfg) @ ''/'' else [])"

definition listBackups :: "host \<Rightarrow> env \<Rightarrow> config \<Rightarrow> backup list run" where
  "listBackups h e cfg =
     catch
       (bind (perform e (S3List (Some (list_prefix cfg)))) (\<lambda>_.
          case s3_contents e of
            None \<Rightarrow> ret []
          | Some contents \<Rightarrow>
              if contents = [] then ret []
              else ret (take 20 (sorted_backups h contents))))
       (\<lambda>err. bind (logError RestoreJs ''Error listing backups:'' err) (\<lambda>_. throw err))"

definition missing_base :: "string \<Rightarrow> js_error" where
  "missing_base dateStr =
     Error (''Cannot find full backup for date '' @ dateStr @
            ''. Incremental backups cannot be restored without their base full backup.'')"

text \<open>
  \<^verbatim>\<open>findRelatedBackups\<close>. \<^verbatim>\<open>toISOString\<close> of an invalid date throws a
  \<^verbatim>\<open>RangeError\<close>.
  The records that pass the filter have valid dates, since a comparison with
  \<^verbatim>\<open>NaN\<close> is false: the comparator of the sort is consistent on them.
\<close>

definition findRelatedBackups :: "backup list \<Rightarrow> backup \<Rightarrow> js_error + backup list" where
  "findRelatedBackups backups selectedBackup =
     (if isIncremental selectedBackup then
        (case date selectedBackup of
           None \<Rightarrow> Inl RangeError
         | Some incDate \<Rightarrow>
            (let dateStr = remove_chars {CHR ''-''} (slice0 (toISOString incDate) 10) in
             case find (\<lambda>b. \<not> isIncremental b \<and>
                            filename b = ''full_backup_'' @ dateStr @ ''.tar.gz'') backups of
               None \<Rightarrow> Inl (missing_base dateStr)
             | Some fullBackup \<Rightarrow>
                 Inr (fullBackup #
                      js_sort (\<lambda>a b. date_minus (date a) (date b))
                        (filter (\<lambda>b. isIncremental b \<and>
                                      date_ge (date b) (date fullBackup) \<and>
                                      date_le (date b) (date selectedBackup) \<and>
                                      startsWith (filename b) (''inc_backup_'' @ dateStr))
                                backups))))
      else Inr [selectedBackup])"

text \<open>
  What the operator types: the answer to the selection prompt, as \<^verbatim>\<open>main\<close> reads it
  (\<^verbatim>\<open>q\<close>, or the result of \<^verbatim>\<open>parseInt\<close>), and whether the confirmation,
  lower-cased, is \<^verbatim>\<open>yes\<close>. Before the prompt \<^verbatim>\<open>main\<close> prints the table of the
  records, each date with \<^verbatim>\<open>toISOString\<close>, which throws a \<^verbatim>\<open>RangeError\<close> on an
  \<^verbatim>\<open>Invalid Date\<close>.
\<close>

datatype selection = Quit | Pick int | NotANumber

definition lift :: "js_error + 'a \<Rightarrow> 'a run" where
  "lift r = ([], r)"

definition restore_main :: "host \<Rightarrow> env \<Rightarrow> config \<Rightarrow> selection \<Rightarrow> bool \<Rightarrow> unit run" where
  "restore_main h e cfg sel proceed =
     catch
       (bind (listBackups h e cfg) (\<lambda>backups.
          if length backups = 0 then ret ()
          else if list_ex (\<lambda>b. date b = None) backups then throw RangeError
          else case sel of
            Quit \<Rightarrow> ret ()
          | NotANumber \<Rightarrow> emit (LogErrorText ''Invalid selection.'')
          | Pick n \<Rightarrow>
              (let selectedIndex = n - 1 in
               if selectedIndex < 0 \<or> selectedIndex \<ge> int (length backups)
               then emit (LogErrorText ''Invalid selection.'')
               else
                 (let selectedBackup = backups ! nat selectedIndex in
                  bind (lift (findRelatedBackups backups selectedBackup)) (\<lambda>backupsToRestore.
                    if \<not> proceed then ret ()
                    else seq [ perform e (FsMkdir (restoreRoot cfg)),
                               restoreBackups e cfg backupsToRestore ])))))
       (\<lambda>err. seq [logError RestoreJs ''Restore failed:'' err, emit (Exit 1)])"

section \<open>The schedulers: \<^verbatim>\<open>index.js\<close> and \<^verbatim>\<open>part_000\<close>\<close>

text \<open>
  The working root on local disk, as far as the schedulers look into it: its entries by
  name, each a file or a directory with the names of its own entries.
\<close>

datatype node = File | Dir "string list"

type_synonym fs = "(string \<times> node) list"

definition has_entry :: "node \<Rightarrow> string \<Rightarrow> bool" where
  "has_entry n name = (case n of File \<Rightarrow> False | Dir names \<Rightarrow> name \<in> set names)"

definition uploadToB2 :: "env \<Rightarrow> config \<Rightarrow> string \<Rightarrow> string \<Rightarrow> unit run" where
  "uploadToB2 e cfg filePath k =
     (let s3Key = (if s3BackupDir cfg \<noteq> [] then strip_slashes (s3BackupDir cfg) @ ''/'' @ k else k)
      in seq [perform e (FsReadFile filePath), perform e (S3Put s3Key)])"

definition old_object :: "int \<Rightarrow> s3_object \<Rightarrow> bool" where
  "old_object cutoffDate object =
     (case LastModified object of None \<Rightarrow> False | Some lm \<Rightarrow> lm < cutoffDate)"

fun deleteOld :: "env \<Rightarrow> int \<Rightarrow> s3_object list \<Rightarrow> unit run" where
  "deleteOld e cutoffDate [] = ret ()"
| "deleteOld e cutoffDate (object # objects) =
     bind (if old_object cutoffDate object then perform e (S3Delete (Key object)) else ret ())
          (\<lambda>_. deleteOld e cutoffDate objects)"

definition cleanupOldBackups :: "variant \<Rightarrow> env \<Rightarrow> config \<Rightarrow> int \<Rightarrow> unit run" where
  "cleanupOldBackups v e cfg now =
     (let cutoffDate = now - retentionDays cfg * 24 * 60 * 60 * 1000;
          prefix = (if s3BackupDir cfg \<noteq> [] then Some (strip_slashes (s3BackupDir cfg) @ ''/'')
                    else None)
      in catch
           (bind (perform e (S3List prefix)) (\<lambda>_.
              case s3_contents e of
                None \<Rightarrow> ret ()
              | Some contents \<Rightarrow> deleteOld e cutoffDate contents))
           (\<lambda>err. logError v ''Error cleaning up old backups:'' err))"

text \<open>
  \<^verbatim>\<open>cleanupOldDirectories\<close>. \<^verbatim>\<open>fs.rm\<close> with \<^verbatim>\<open>recursive\<close> and \<^verbatim>\<open>force\<close>
  removes the entry, file or directory; when it throws the entry is taken to be still there.
  The run returns the working root as the loop leaves it.
\<close>

fun removeOld :: "variant \<Rightarrow> env \<Rightarrow> config \<Rightarrow> string \<Rightarrow> string list \<Rightarrow> fs \<Rightarrow> fs run" where
  "removeOld v e cfg currentDate [] root = ret root"
| "removeOld v e cfg currentDate (entry # entries) root =
     (if startsWith entry ''full_backup_'' \<and> entry \<noteq> ''full_backup_'' @ currentDate then
        (let dirPath = path_join (backupRoot cfg) entry in
         bind (catch (perform e (FsRm dirPath))
                     (\<lambda>err. logError v (''Error removing directory '' @ dirPath @ '':'') err))
              (\<lambda>_. removeOld v e cfg currentDate entries
                      (if io_fails e (FsRm dirPath) then root
                       else filter (\<lambda>(name, _). name \<noteq> entry) root)))
      else removeOld v e cfg currentDate entries root)"

definition cleanupOldDirectories :: "variant \<Rightarrow> env \<Rightarrow> config \<Rightarrow> fs \<Rightarrow> string \<Rightarrow> fs run" where
  "cleanupOldDirectories v e cfg root currentDate =
     bind (perform e (FsReaddir (backupRoot cfg)))
          (\<lambda>_. removeOld v e cfg currentDate (map fst root) root)"

definition backupArgs :: "variant \<Rightarrow> config \<Rightarrow> string list" where
  "backupArgs v cfg =
     [''--backup'', ''--user='' @ dbUser cfg, ''--password='' @ dbPassword cfg,
      ''--host='' @ dbHost cfg] @ (if v = Part000 then [] else [''--port='' @ dbPort cfg])"

definition performFullBackup :: "variant \<Rightarrow> env \<Rightarrow> config \<Rightarrow> fs \<Rightarrow> int \<Rightarrow> string run" where
  "performFullBackup v e cfg root now =
     (let currentDate = formatDate now;
          backupDir = path_join (backupRoot cfg) (''full_backup_'' @ currentDate);
          tarFile = path_join (backupRoot cfg) (''full_backup_'' @ currentDate @ ''.tar.gz'')
      in catch
           (bind (cleanupOldDirectories v e cfg root currentDate) (\<lambda>_.
            bind (seq
              [ perform e (FsMkdir backupDir),
                runCommand v e ''xtrabackup''
                  (backupArgs v cfg @ [''--target-dir='' @ backupDir, ''--no-lock'']),
                runCommand v e ''tar'' [''czf'', tarFile, ''-C'', backupDir, ''.''],
                uploadToB2 e cfg tarFile (basename tarFile),
                perform e (FsUnlink tarFile) ]) (\<lambda>_. ret backupDir)))
           (\<lambda>err. bind (logError v ''Error during full backup:'' err) (\<lambda>_. throw err)))"

definition performIncrementalBackup :: "variant \<Rightarrow> env \<Rightarrow> config \<Rightarrow> string \<Rightarrow> int \<Rightarrow> unit run" where
  "performIncrementalBackup v e cfg baseDir now =
     (let currentDateTime = formatDateTime now;
          incrementalDir = path_join (backupRoot cfg) (''inc_backup_'' @ currentDateTime);
          tarFile = path_join (backupRoot cfg) (''inc_backup_'' @ currentDateTime @ ''.tar.gz'')
      in catch
           (seq
              [ perform e (FsMkdir incrementalDir),
                runCommand v e ''xtrabackup''
                  (backupArgs v cfg @
                   [''--target-dir='' @ incrementalDir, ''--incremental-basedir='' @ baseDir,
                    ''--no-lock'']),
                runCommand v e ''tar'' [''czf'', tarFile, ''-C'', incrementalDir, ''.''],
                uploadToB2 e cfg tarFile (basename tarFile),
                perform e (FsUnlink tarFile),
                perform e (FsRm incrementalDir) ])
           (\<lambda>err. bind (logError v ''Error during incremental backup:'' err) (\<lambda>_. throw err)))"

definition pingHealthcheck :: "variant \<Rightarrow> env \<Rightarrow> config \<Rightarrow> unit run" where
  "pingHealthcheck v e cfg =
     (if healthCheckUrl cfg \<noteq> [] then
        catch (perform e (HttpGet (healthCheckUrl cfg)))
              (\<lambda>err. logError v ''Failed to ping healthcheck:'' err)
      else ret ())"

text \<open>
  \<^verbatim>\<open>getCurrentFullBackupDir\<close>: \<^verbatim>\<open>index.js\<close> probes the directory and then its
  \<^verbatim>\<open>xtrabackup_checkpoints\<close> file; \<^verbatim>\<open>part_000\<close> probes the directory only.
\<close>

definition getCurrentFullBackupDir :: "variant \<Rightarrow> config \<Rightarrow> fs \<Rightarrow> int \<Rightarrow> string option run" where
  "getCurrentFullBackupDir v cfg root now =
     (let currentDate = formatDate now;
          fullBackupDir = path_join (backupRoot cfg) (''full_backup_'' @ currentDate);
          checkpointFile = path_join fullBackupDir ''xtrabackup_checkpoints''
      in case map_of root (''full_backup_'' @ currentDate) of
           None \<Rightarrow> ([Do (FsAccess fullBackupDir)], Inr None)
         | Some n \<Rightarrow>
             if v = Part000 then ([Do (FsAccess fullBackupDir)], Inr (Some fullBackupDir))
             else ([Do (FsAccess fullBackupDir), Do (FsAccess checkpointFile)],
                   Inr (if has_entry n ''xtrabackup_checkpoints'' then Some fullBackupDir else None)))"

text \<open>
  One scheduler tick. The clock is read three times: by the probe, by the backup
  procedure and by the retention sweep.
\<close>

record clock =
  probe_time :: int
  backup_time :: int
  sweep_time :: int

definition runBackup :: "variant \<Rightarrow> env \<Rightarrow> config \<Rightarrow> fs \<Rightarrow> clock \<Rightarrow> unit run" where
  "runBackup v e cfg root clk =
     catch
       (bind (getCurrentFullBackupDir v cfg root (probe_time clk)) (\<lambda>baseDir.
          seq
            [ (case baseDir of
                 None \<Rightarrow> bind (performFullBackup v e cfg root (backup_time clk)) (\<lambda>_. ret ())
               | Some dir \<Rightarrow> performIncrementalBackup v e cfg dir (backup_time clk)),
              cleanupOldBackups v e cfg (sweep_time clk),
              pingHealthcheck v e cfg ]))
       (\<lambda>err. seq [logError v ''Backup failed:'' err, emit (Exit 1)])"

section \<open>Observations on traces\<close>

text \<open>The keys a run deleted from the store: its delete calls that did not throw.\<close>

definition deleted :: "env \<Rightarrow> event list \<Rightarrow> string list" where
  "deleted e t =
     concat (map (\<lambda>ev. case ev of
                          Do (S3Delete k) \<Rightarrow> (if io_fails e (S3Delete k) then [] else [k])
                        | _ \<Rightarrow> []) t)"

definition delete_ok :: "env \<Rightarrow> s3_object \<Rightarrow> bool" where
  "delete_ok e obj = (\<not> io_fails e (S3Delete (Key obj)))"

text \<open>
  The sweep as the specification words it: the catalog entries, that is the keys with
  the archive extension, older than the cutoff.
\<close>

definition spec_sweep_keys :: "int \<Rightarrow> s3_object list \<Rightarrow> string list" where
  "spec_sweep_keys cutoff contents =
     map Key (filter (\<lambda>obj. endsWith (Key obj) ''.tar.gz'' \<and> old_object cutoff obj) contents)"

text \<open>The test of the loop in \<^verbatim>\<open>cleanupOldDirectories\<close>, and the paths a run called \<^verbatim>\<open>fs.rm\<close> on.\<close>

definition is_old_full :: "string \<Rightarrow> string \<Rightarrow> bool" where
  "is_old_full currentDate entry =
     (startsWith entry ''full_backup_'' \<and> entry \<noteq> ''full_backup_'' @ currentDate)"

definition rm_ok :: "env \<Rightarrow> config \<Rightarrow> string \<Rightarrow> bool" where
  "rm_ok e cfg entry = (\<not> io_fails e (FsRm (path_join (backupRoot cfg) entry)))"

definition removals :: "event list \<Rightarrow> string list" where
  "removals t = concat (map (\<lambda>ev. case ev of Do (FsRm p) \<Rightarrow> [p] | _ \<Rightarrow> []) t)"

text \<open>
  The local cleanup as the specification words it: of the entries named
  \<^verbatim>\<open>full_backup_*\<close> other than today's, the directories go; everything else stays.
\<close>

definition spec_cleanup :: "string \<Rightarrow> fs \<Rightarrow> fs" where
  "spec_cleanup currentDate root =
     filter (\<lambda>(name, n). \<not> (n \<noteq> File \<and> is_old_full currentDate name)) root"

text \<open>
  Kinds of events. A local event touches the working root or spawns a process, or is the
  line a failed removal leaves on the error stream: no call on the store, no ping, no
  exit. A working event is any event that neither ends the process nor is the liveness
  ping. A sweep call is a call the Retention Sweep makes on the store.
\<close>

definition local_event :: "event \<Rightarrow> bool" where
  "local_event ev =
     (case ev of
        Do (FsAccess _) \<Rightarrow> True | Do (FsReaddir _) \<Rightarrow> True | Do (FsRm _) \<Rightarrow> True
      | Do (FsMkdir _) \<Rightarrow> True | Do (FsReadFile _) \<Rightarrow> True
      | Spawn _ _ \<Rightarrow> True
      | LogError _ (IOFailure (FsRm _)) \<Rightarrow> True
      | _ \<Rightarrow> False)"

definition working_event :: "event \<Rightarrow> bool" where
  "working_event ev =
     (case ev of
        Exit _ \<Rightarrow> False | Uncaught _ _ \<Rightarrow> False | Do (HttpGet _) \<Rightarrow> False | _ \<Rightarrow> True)"

definition is_sweep_call :: "action \<Rightarrow> bool" where
  "is_sweep_call a = (case a of S3List _ \<Rightarrow> True | S3Delete _ \<Rightarrow> True | _ \<Rightarrow> False)"

text \<open>The branch of \<^verbatim>\<open>runBackup\<close> on the probe's answer.\<close>

definition backupProcedure ::
  "variant \<Rightarrow> env \<Rightarrow> config \<Rightarrow> fs \<Rightarrow> int \<Rightarrow> string option \<Rightarrow> unit run" where
  "backupProcedure v e cfg root now baseDir =
     (case baseDir of
        None \<Rightarrow> bind (performFullBackup v e cfg root now) (\<lambda>_. ret ())
      | Some dir \<Rightarrow> performIncrementalBackup v e cfg dir now)"

text \<open>The processes a run spawned, and the texts of the errors it wrote to the error stream.\<close>

definition spawns :: "event list \<Rightarrow> (string \<times> string list) list" where
  "spawns t = concat (map (\<lambda>ev. case ev of Spawn c args \<Rightarrow> [(c, args)] | _ \<Rightarrow> []) t)"

definition error_texts :: "event list \<Rightarrow> string list" where
  "error_texts t = concat (map (\<lambda>ev. case ev of LogError _ (Error m) \<Rightarrow> [m] | _ \<Rightarrow> []) t)"

definition contains :: "string \<Rightarrow> string \<Rightarrow> bool" where
  "contains s p = list_ex (\<lambda>i. startsWith (drop i s) p) [0 ..< Suc (length s)]"





section \<open>Sample inputs\<close>

text \<open>A store listing on 2024-01-02: an archive of 2023-11-01, a stray text file of the
  same age, and a fresh incremental. The retention window of 30 days ends on 2023-12-03.\<close>

definition listing_0 :: "s3_object list" where
  "listing_0 =
     [ \<lparr> Key = ''mysql-backups/full_backup_20231101.tar.gz'', Size = 2097152,
         LastModified = Some 1698796860000 \<rparr>,
       \<lparr> Key = ''mysql-backups/notes.txt'', Size = 12, LastModified = Some 1698796860000 \<rparr>,
       \<lparr> Key = ''mysql-backups/inc_backup_20240101060000.tar.gz'', Size = 204800,
         LastModified = Some 1704088860000 \<rparr> ]"

definition env_listing_0 :: env where
  "env_listing_0 =
     \<lparr> io_fails = (\<lambda>_. False), spawn_error = (\<lambda>_ _. False), exit_code = (\<lambda>_ _. Some 0), s3_contents = Some listing_0 \<rparr>"

text \<open>The same listing when the store refuses to delete the old archive.\<close>

definition env_delete_fails :: env where
  "env_delete_fails =
     \<lparr> io_fails = (\<lambda>a. a = S3Delete ''mysql-backups/full_backup_20231101.tar.gz''),
       spawn_error = (\<lambda>_ _. False), exit_code = (\<lambda>_ _. Some 0), s3_contents = Some listing_0 \<rparr>"

text \<open>2024-01-02T00:00:00Z.\<close>

definition now_0102 :: int where
  "now_0102 = 1704153600000"

text \<open>A tick at 06:00 on 2024-01-01 and working roots it may find.\<close>

definition clock_0 :: clock where
  "clock_0 = \<lparr> probe_time = 1704088800000, backup_time = 1704088800005, sweep_time = 1704088860000 \<rparr>"

definition root_valid :: fs where
  "root_valid = [(''full_backup_20240101'', Dir [''xtrabackup_checkpoints'', ''ibdata1''])]"

definition root_unfinished :: fs where
  "root_unfinished = [(''full_backup_20240101'', Dir [''ibdata1''])]"

definition root_yesterday :: fs where
  "root_yesterday =
     [ (''full_backup_20231231'', Dir [''xtrabackup_checkpoints'', ''ibdata1'']),
       (''full_backup_20231231.tar.gz'', File),
       (''inc_backup_20231231230000'', Dir [''xtrabackup_checkpoints'']) ]"

text \<open>
  Environments in which one thing goes wrong: the removal of yesterday's directory, the
  store's list call, the upload, or the engine.
\<close>

definition env_rm_fails :: env where
  "env_rm_fails =
     \<lparr> io_fails = (\<lambda>a. a = FsRm ''/tmp/mysql-backup-1/full_backup_20231231''),
       spawn_error = (\<lambda>_ _. False), exit_code = (\<lambda>_ _. Some 0), s3_contents = None \<rparr>"

definition env_list_fails :: env where
  "env_list_fails =
     \<lparr> io_fails = (\<lambda>a. a = S3List (Some ''mysql-backups/'')), spawn_error = (\<lambda>_ _. False),
       exit_code = (\<lambda>_ _. Some 0), s3_contents = None \<rparr>"

definition env_upload_fails :: env where
  "env_upload_fails =
     \<lparr> io_fails = (\<lambda>a. case a of S3Put _ \<Rightarrow> True | _ \<Rightarrow> False),
       spawn_error = (\<lambda>_ _. False), exit_code = (\<lambda>_ _. Some 0), s3_contents = None \<rparr>"

definition env_engine_fails :: env where
  "env_engine_fails =
     \<lparr> io_fails = (\<lambda>_. False), spawn_error = (\<lambda>_ _. False),
       exit_code = (\<lambda>c _. if c = ''xtrabackup'' then Some 1 else Some 0),
       s3_contents = None \<rparr>"

text \<open>Two restore hosts: one on UTC, one eight hours east of it (no daylight saving).\<close>

definition host_utc :: host where
  "host_utc = \<lparr> localTZA = (\<lambda>_. 0), legacy_parse = (\<lambda>_. None), engine_sort = (\<lambda>bs. bs) \<rparr>"

definition host_utc8 :: host where
  "host_utc8 =
     \<lparr> localTZA = (\<lambda>_. 28800000), legacy_parse = (\<lambda>_. None), engine_sort = (\<lambda>bs. bs) \<rparr>"

text \<open>
  Store listings under the prefix \<^verbatim>\<open>mysql-backups/\<close>: the scenario of the
  specification (a Full and two incrementals of 2024-01-01); an incremental without its
  Full; two incrementals of the same second, one of them in a sub-directory; and a day
  with its Full and the 21 hourly incrementals from 01:00 to 21:00.
\<close>

definition stored :: "string \<Rightarrow> s3_object" where
  "stored k = \<lparr> Key = k, Size = 204800, LastModified = None \<rparr>"




definition listing_full_day :: "s3_object list" where
  "listing_full_day =
     stored ''mysql-backups/full_backup_20240101.tar.gz'' #
     map (\<lambda>hour. stored (''mysql-backups/inc_backup_20240101'' @ pad 2 hour @ ''0000.tar.gz''))
       [1 ..< 22]"

text \<open>The records of that day, most recent first, as a host on UTC reads them.\<close>

definition catalog_full_day :: "backup list" where
  "catalog_full_day =
     map (\<lambda>hour.
            \<lparr> key = ''mysql-backups/inc_backup_20240101'' @ pad 2 hour @ ''0000.tar.gz'',
              filename = ''inc_backup_20240101'' @ pad 2 hour @ ''0000.tar.gz'',
              size_bytes = 204800, date = Some (1704067200000 + int hour * 3600000),
              isIncremental = True, lastModified = None \<rparr>)
         (rev [1 ..< 22]) @
     [ \<lparr> key = ''mysql-backups/full_backup_20240101.tar.gz'',
         filename = ''full_backup_20240101.tar.gz'',
         size_bytes = 204800, date = Some 1704067200000,
         isIncremental = False, lastModified = None \<rparr> ]"

definition env_with :: "s3_object list \<Rightarrow> env" where
  "env_with contents =
     \<lparr> io_fails = (\<lambda>_. False), spawn_error = (\<lambda>_ _. False), exit_code = (\<lambda>_ _. Some 0), s3_contents = Some contents \<rparr>"

section \<open>Properties of the effect model\<close>

lemma merges_append: "merges (xs @ ys) = merges xs @ merges ys"
  by (induction xs rule: merges.induct) auto

lemma all_ok_ok_env: "all_ok ok_env"
  by (simp add: all_ok_def ok_env_def)

lemma perform_ok: "all_ok e \<Longrightarrow> perform e a = ([Do a], Inr ())"
  by (simp add: perform_def all_ok_def)

lemma runCommand_ok: "all_ok e \<Longrightarrow> runCommand v e c args = ([Spawn c args], Inr ())"
  by (simp add: runCommand_def all_ok_def)

lemma downloadFromS3_ok:
  "all_ok e \<Longrightarrow> downloadFromS3 e k p = ([Do (S3Get k), Do (FsWriteFile p)], Inr ())"
  by (simp add: downloadFromS3_def perform_ok catch_def bind_def ret_def)

section \<open>The merge pipeline of the restore tool\<close>

lemma upt_step: "[i ..< i + length (b # bs)] = i # [Suc i ..< Suc i + length bs]"
proof -
  have "i < i + length (b # bs)" by simp
  then have "[i ..< i + length (b # bs)] = i # [Suc i ..< i + length (b # bs)]"
    by (rule upt_conv_Cons)
  moreover have "i + length (b # bs) = Suc i + length bs" by simp
  ultimately show ?thesis by (simp only:)
qed

lemma applyIncrementals_ok:
  assumes "all_ok e"
  shows "snd (applyIncrementals e cfg (path_join (restoreRoot cfg) ''base'') i incs) = Inr () \<and>
     merges (fst (applyIncrementals e cfg (path_join (restoreRoot cfg) ''base'') i incs))
       = map (inc_merge cfg True) [i ..< i + length incs]"
proof (induction incs arbitrary: i)
  case Nil
  then show ?case by (simp add: ret_def)
next
  case (Cons b bs)
  from Cons.IH [of "Suc i"] obtain t where
    t: "applyIncrementals e cfg (path_join (restoreRoot cfg) ''base'') (Suc i) bs = (t, Inr ())"
       "merges t = map (inc_merge cfg True) [Suc i ..< Suc i + length bs]"
    by (metis prod.collapse)
  show ?case unfolding upt_step using assms t
    by (simp add: Let_def perform_ok runCommand_ok downloadFromS3_ok bind_def ret_def
        arg_value_def startsWith_def inc_merge_def)
qed

text \<open>
  C1 (as amended). When every step succeeds, the restore of a chain
  \<open>[full, inc_1, .., inc_k]\<close> returns normally and its merge invocations are, in this
  order: one log-only merge on the base alone (only when \<open>k \<ge> 1\<close>), one log-only merge
  for every incremental \<open>inc_1 .. inc_k\<close>, the last one included, and one finalizing
  merge on the base directory that takes no incremental. There are no others.
\<close>

theorem restore_merges:
  assumes "all_ok e"
  shows "snd (restoreBackups e cfg (full # incs)) = Inr () \<and>
     merges (fst (restoreBackups e cfg (full # incs))) =
       (if incs = [] then [] else [base_merge cfg True])
       @ map (inc_merge cfg True) [1 ..< 1 + length incs]
       @ [base_merge cfg False]"
proof -
  obtain t where
    t: "applyIncrementals e cfg (path_join (restoreRoot cfg) ''base'') 1 incs = (t, Inr ())"
       "merges t = map (inc_merge cfg True) [1 ..< 1 + length incs]"
    using applyIncrementals_ok [OF assms, of cfg 1 incs] by (metis prod.collapse)
  show ?thesis using assms t
    by (cases incs)
       (simp_all add: restoreBackups_def Let_def perform_ok runCommand_ok downloadFromS3_ok
          bind_def ret_def arg_value_def startsWith_def base_merge_def merges_append)
qed

theorem restore_merges_witness:
  "all_ok ok_env \<and>
   snd (restoreBackups ok_env cfg0 [full_0101, inc_0101_06, inc_0101_12]) = Inr () \<and>
   merges (fst (restoreBackups ok_env cfg0 [full_0101, inc_0101_06, inc_0101_12])) =
     [base_merge cfg0 True, inc_merge cfg0 True 1, inc_merge cfg0 True 2, base_merge cfg0 False]"
proof -
  have u: "[1 ..< 1 + length [inc_0101_06, inc_0101_12]] = [1, 2]"
    by (simp add: upt_rec)
  show ?thesis
    using restore_merges [OF all_ok_ok_env, of cfg0 full_0101 "[inc_0101_06, inc_0101_12]"]
    unfolding u by (simp add: all_ok_ok_env)
qed

text \<open>
  The claim as worded fails on the scenario's chain of length 3: the pipeline issues
  four merges, not three, and its finalizing merge has no incremental argument.
\<close>

theorem restore_merges_counterexample:
  "merges (fst (restoreBackups ok_env cfg0 [full_0101, inc_0101_06, inc_0101_12]))
     \<noteq> spec_merges cfg0 2"
proof -
  have u: "[1 ..< 1 + length [inc_0101_06, inc_0101_12]] = [1, 2]"
    by (simp add: upt_rec)
  have "length (merges (fst (restoreBackups ok_env cfg0 [full_0101, inc_0101_06, inc_0101_12]))) = 4"
    using restore_merges [OF all_ok_ok_env, of cfg0 full_0101 "[inc_0101_06, inc_0101_12]"]
    unfolding u by simp
  moreover have "length (spec_merges cfg0 2) = 3"
    by (simp add: spec_merges_def)
  ultimately show ?thesis by auto
qed

section \<open>Traces and results of the combinators\<close>

lemma fst_bind: "fst (bind m f) = fst m @ (case snd m of Inl e \<Rightarrow> [] | Inr x \<Rightarrow> fst (f x))"
  by (simp add: bind_def split: prod.splits sum.splits)

lemma snd_bind: "snd (bind m f) = (case snd m of Inl e \<Rightarrow> Inl e | Inr x \<Rightarrow> snd (f x))"
  by (simp add: bind_def split: prod.splits sum.splits)

lemma fst_catch:
  "fst (catch m h) =
     fst m @ (case snd m of Inl e \<Rightarrow> if e = ProcessEnded then [] else fst (h e) | Inr x \<Rightarrow> [])"
  by (simp add: catch_def split: prod.splits sum.splits)

lemma snd_catch:
  "snd (catch m h) =
     (case snd m of Inl e \<Rightarrow> if e = ProcessEnded then Inl e else snd (h e) | Inr x \<Rightarrow> Inr x)"
  by (simp add: catch_def split: prod.splits sum.splits)

lemma fst_perform: "fst (perform e a) = [Do a]"
  by (simp add: perform_def)

lemma snd_perform: "snd (perform e a) = (if io_fails e a then Inl (IOFailure a) else Inr ())"
  by (simp add: perform_def)

lemma fst_logError:
  "fst (logError v l err) = [LogError l (if v = Part000 then err else sanitizeError err)]"
  by (simp add: logError_def emit_def)

lemma snd_logError: "snd (logError v l err) = Inr ()"
  by (simp add: logError_def emit_def)

lemma run_ret: "fst (ret x) = []" "snd (ret x) = Inr x"
  by (simp_all add: ret_def)

lemma run_throw: "fst (throw x) = []" "snd (throw x) = Inl x"
  by (simp_all add: throw_def)

lemma run_emit: "fst (emit x) = [x]" "snd (emit x) = Inr ()"
  by (simp_all add: emit_def)

lemma run_lift: "fst (lift r) = []" "snd (lift r) = r"
  by (simp_all add: lift_def)

lemma fst_runCommand:
  "fst (runCommand v e c args) =
     (if spawn_error e c args then [Spawn c args, Uncaught c args, Exit 1] else [Spawn c args])"
  by (simp add: runCommand_def)

lemma snd_runCommand:
  "snd (runCommand v e c args) =
     (if spawn_error e c args then Inl ProcessEnded
      else if exit_code e c args = Some 0 then Inr ()
      else Inl (Error (c @ '' '' @ join_sp (safeArgs v args) @
                       '' failed with exit code '' @ show_code (exit_code e c args))))"
  by (simp add: runCommand_def)

lemma fst_seq_Cons:
  "fst (seq (m # ms)) = fst m @ (case snd m of Inl e \<Rightarrow> [] | Inr x \<Rightarrow> fst (seq ms))"
  by (simp add: fst_bind)

lemma snd_seq_Cons:
  "snd (seq (m # ms)) = (case snd m of Inl e \<Rightarrow> Inl e | Inr x \<Rightarrow> snd (seq ms))"
  by (simp add: snd_bind)

lemma seq_Nil: "fst (seq []) = []" "snd (seq []) = Inr ()"
  by (simp_all add: ret_def)

lemmas run_simps = fst_bind snd_bind fst_catch snd_catch fst_perform snd_perform
  fst_logError snd_logError run_ret run_throw run_emit run_lift fst_runCommand

lemmas seq_simps = fst_seq_Cons snd_seq_Cons seq_Nil

lemma pad_Suc_0: "pad (Suc 0) n = [digit_char n]"
  by simp





section \<open>The retention sweep\<close>

lemma deleted_append: "deleted e (xs @ ys) = deleted e xs @ deleted e ys"
  by (simp add: deleted_def)

lemma deleted_simps:
  "deleted e [] = []"
  "deleted e (LogError l err # t) = deleted e t"
  "deleted e (Do (S3List p) # t) = deleted e t"
  "deleted e (Do (S3Delete k) # t) = (if io_fails e (S3Delete k) then [] else [k]) @ deleted e t"
  by (simp_all add: deleted_def)

lemma deleted_calls:
  "deleted e (map (\<lambda>obj. Do (S3Delete (Key obj))) (takeWhile (delete_ok e) objs)) =
     map Key (takeWhile (delete_ok e) objs)"
  by (induction objs) (simp_all add: deleted_simps delete_ok_def)

lemma deleted_stop:
  "deleted e (case dropWhile (delete_ok e) objs of [] \<Rightarrow> []
              | obj # rest \<Rightarrow> [Do (S3Delete (Key obj)), LogError l (IOFailure (S3Delete (Key obj)))])
     = []"
proof (cases "dropWhile (delete_ok e) objs")
  case Nil
  show ?thesis by (simp only: Nil list.case deleted_simps)
next
  case (Cons obj rest)
  have "\<not> delete_ok e (hd (dropWhile (delete_ok e) objs))"
    by (rule hd_dropWhile) (simp add: Cons)
  then have "io_fails e (S3Delete (Key obj))" by (simp add: Cons delete_ok_def)
  then show ?thesis by (simp only: Cons list.case deleted_simps if_True append_Nil)
qed

lemma fst_deleteOld:
  "fst (deleteOld e c objs) =
     map (\<lambda>obj. Do (S3Delete (Key obj))) (takeWhile (delete_ok e) (filter (old_object c) objs)) @
     (case dropWhile (delete_ok e) (filter (old_object c) objs) of [] \<Rightarrow> []
      | obj # rest \<Rightarrow> [Do (S3Delete (Key obj))])"
  by (induction objs) (simp_all add: run_simps delete_ok_def)

lemma snd_deleteOld:
  "snd (deleteOld e c objs) =
     (case dropWhile (delete_ok e) (filter (old_object c) objs) of [] \<Rightarrow> Inr ()
      | obj # rest \<Rightarrow> Inl (IOFailure (S3Delete (Key obj))))"
  by (induction objs) (simp_all add: run_simps delete_ok_def)

lemma sweep_body:
  assumes "\<not> io_fails e (S3List p)"
  shows "catch (bind (perform e (S3List p)) (\<lambda>_. deleteOld e c contents)) (logError v l) =
     (Do (S3List p) #
      map (\<lambda>obj. Do (S3Delete (Key obj)))
        (takeWhile (delete_ok e) (filter (old_object c) contents)) @
      (case dropWhile (delete_ok e) (filter (old_object c) contents) of
         [] \<Rightarrow> []
       | obj # rest \<Rightarrow> [Do (S3Delete (Key obj)), LogError l (IOFailure (S3Delete (Key obj)))]),
      Inr ())"
proof -
  define stop where "stop = dropWhile (delete_ok e) (filter (old_object c) contents)"
  have f: "fst (deleteOld e c contents) =
      map (\<lambda>obj. Do (S3Delete (Key obj)))
        (takeWhile (delete_ok e) (filter (old_object c) contents)) @
      (case stop of [] \<Rightarrow> [] | obj # rest \<Rightarrow> [Do (S3Delete (Key obj))])"
    unfolding stop_def by (rule fst_deleteOld)
  have s: "snd (deleteOld e c contents) =
      (case stop of [] \<Rightarrow> Inr () | obj # rest \<Rightarrow> Inl (IOFailure (S3Delete (Key obj))))"
    unfolding stop_def by (rule snd_deleteOld)
  show ?thesis
    unfolding stop_def [symmetric] using assms
    by (cases stop) (simp_all add: prod_eq_iff run_simps f s sanitizeError_def)
qed

lemma sweep_run:
  assumes "\<not> io_fails e (S3List (if s3BackupDir cfg \<noteq> []
                                  then Some (strip_slashes (s3BackupDir cfg) @ ''/'') else None))"
    and "s3_contents e = Some contents"
  shows "cleanupOldBackups v e cfg now =
     (Do (S3List (if s3BackupDir cfg \<noteq> [] then Some (strip_slashes (s3BackupDir cfg) @ ''/'')
                  else None)) #
      map (\<lambda>obj. Do (S3Delete (Key obj)))
        (takeWhile (delete_ok e)
           (filter (old_object (now - retentionDays cfg * 24 * 60 * 60 * 1000)) contents)) @
      (case dropWhile (delete_ok e)
              (filter (old_object (now - retentionDays cfg * 24 * 60 * 60 * 1000)) contents) of
         [] \<Rightarrow> []
       | obj # rest \<Rightarrow>
           [Do (S3Delete (Key obj)),
            LogError ''Error cleaning up old backups:'' (IOFailure (S3Delete (Key obj)))]),
      Inr ())"
  using assms by (simp add: cleanupOldBackups_def Let_def sweep_body)

lemma sweep_list_fails:
  assumes "io_fails e (S3List (if s3BackupDir cfg \<noteq> []
                                  then Some (strip_slashes (s3BackupDir cfg) @ ''/'') else None))"
  shows "cleanupOldBackups v e cfg now =
     ([Do (S3List (if s3BackupDir cfg \<noteq> [] then Some (strip_slashes (s3BackupDir cfg) @ ''/'')
                  else None)),
       LogError ''Error cleaning up old backups:''
         (IOFailure (S3List (if s3BackupDir cfg \<noteq> []
                             then Some (strip_slashes (s3BackupDir cfg) @ ''/'') else None)))],
      Inr ())"
  using assms
  by (simp add: prod_eq_iff cleanupOldBackups_def Let_def run_simps sanitizeError_def)

lemma sweep_no_contents:
  assumes "\<not> io_fails e (S3List (if s3BackupDir cfg \<noteq> []
                                  then Some (strip_slashes (s3BackupDir cfg) @ ''/'') else None))"
    and "s3_contents e = None"
  shows "cleanupOldBackups v e cfg now =
     ([Do (S3List (if s3BackupDir cfg \<noteq> [] then Some (strip_slashes (s3BackupDir cfg) @ ''/'')
                  else None))], Inr ())"
  using assms
  by (simp add: prod_eq_iff cleanupOldBackups_def Let_def run_simps)

lemma cleanupOldBackups_returns: "snd (cleanupOldBackups v e cfg now) = Inr ()"
proof (cases "io_fails e (S3List (if s3BackupDir cfg \<noteq> []
                                  then Some (strip_slashes (s3BackupDir cfg) @ ''/'') else None))")
  case True
  then show ?thesis by (simp add: sweep_list_fails)
next
  case False
  then show ?thesis
    by (cases "s3_contents e") (simp_all add: sweep_no_contents sweep_run)
qed

text \<open>
  C7 (as amended). When the list call succeeds and answers with \<open>contents\<close>, the sweep
  is exactly this run: the list call; then, in listing order, a delete call on each listed
  object whose \<open>LastModified\<close> is present and strictly before \<open>now - retentionDays\<close> days,
  whatever its key, as long as the calls succeed; then, if one throws, that call, one line on
  the error stream under \<^verbatim>\<open>Error cleaning up old backups:\<close> carrying the failure, and
  nothing more. The sweep returns normally in both cases. The objects deleted are those
  of the calls that succeeded, and nothing at or after the cutoff is among them. The
  archive extension plays no part.
\<close>

theorem sweep_deletes:
  assumes "\<not> io_fails e (S3List (if s3BackupDir cfg \<noteq> []
                                  then Some (strip_slashes (s3BackupDir cfg) @ ''/'') else None))"
    and "s3_contents e = Some contents"
  shows "cleanupOldBackups v e cfg now =
     (Do (S3List (if s3BackupDir cfg \<noteq> [] then Some (strip_slashes (s3BackupDir cfg) @ ''/'')
                  else None)) #
      map (\<lambda>obj. Do (S3Delete (Key obj)))
        (takeWhile (delete_ok e)
           (filter (old_object (now - retentionDays cfg * 24 * 60 * 60 * 1000)) contents)) @
      (case dropWhile (delete_ok e)
              (filter (old_object (now - retentionDays cfg * 24 * 60 * 60 * 1000)) contents) of
         [] \<Rightarrow> []
       | obj # rest \<Rightarrow>
           [Do (S3Delete (Key obj)),
            LogError ''Error cleaning up old backups:'' (IOFailure (S3Delete (Key obj)))]),
      Inr ()) \<and>
     deleted e (fst (cleanupOldBackups v e cfg now)) =
       map Key (takeWhile (delete_ok e)
         (filter (old_object (now - retentionDays cfg * 24 * 60 * 60 * 1000)) contents))"
proof
  show "cleanupOldBackups v e cfg now =
     (Do (S3List (if s3BackupDir cfg \<noteq> [] then Some (strip_slashes (s3BackupDir cfg) @ ''/'')
                  else None)) #
      map (\<lambda>obj. Do (S3Delete (Key obj)))
        (takeWhile (delete_ok e)
           (filter (old_object (now - retentionDays cfg * 24 * 60 * 60 * 1000)) contents)) @
      (case dropWhile (delete_ok e)
              (filter (old_object (now - retentionDays cfg * 24 * 60 * 60 * 1000)) contents) of
         [] \<Rightarrow> []
       | obj # rest \<Rightarrow>
           [Do (S3Delete (Key obj)),
            LogError ''Error cleaning up old backups:'' (IOFailure (S3Delete (Key obj)))]),
      Inr ())"
    by (rule sweep_run [OF assms])
  show "deleted e (fst (cleanupOldBackups v e cfg now)) =
       map Key (takeWhile (delete_ok e)
         (filter (old_object (now - retentionDays cfg * 24 * 60 * 60 * 1000)) contents))"
    unfolding sweep_run [OF assms] fst_conv
    by (simp only: deleted_simps deleted_append deleted_calls deleted_stop append_Nil2)
qed

lemma listing_0_old:
  "filter (old_object (now_0102 - retentionDays cfg0 * 24 * 60 * 60 * 1000)) listing_0 =
     [listing_0 ! 0, listing_0 ! 1]"
  by (simp add: listing_0_def old_object_def now_0102_def cfg0_def)

theorem sweep_deletes_witness:
  "s3_contents env_delete_fails = Some listing_0 \<and>
   cleanupOldBackups IndexJs env_delete_fails cfg0 now_0102 =
     ([Do (S3List (Some ''mysql-backups/'')),
       Do (S3Delete ''mysql-backups/full_backup_20231101.tar.gz''),
       LogError ''Error cleaning up old backups:''
         (IOFailure (S3Delete ''mysql-backups/full_backup_20231101.tar.gz''))], Inr ()) \<and>
   deleted env_delete_fails (fst (cleanupOldBackups IndexJs env_delete_fails cfg0 now_0102)) = []"
proof -
  have a: "\<not> io_fails env_delete_fails (S3List (if s3BackupDir cfg0 \<noteq> []
              then Some (strip_slashes (s3BackupDir cfg0) @ ''/'') else None))"
    by (simp add: env_delete_fails_def)
  have b: "s3_contents env_delete_fails = Some listing_0"
    by (simp add: env_delete_fails_def)
  have c: "takeWhile (delete_ok env_delete_fails) [listing_0 ! 0, listing_0 ! 1] = []"
    "dropWhile (delete_ok env_delete_fails) [listing_0 ! 0, listing_0 ! 1]
       = [listing_0 ! 0, listing_0 ! 1]"
    by (simp_all add: delete_ok_def env_delete_fails_def listing_0_def)
  have d: "(if s3BackupDir cfg0 \<noteq> [] then Some (strip_slashes (s3BackupDir cfg0) @ ''/'')
            else None) = Some ''mysql-backups/''"
    by code_simp
  show ?thesis
    using sweep_deletes [OF a b, of IndexJs now_0102] b
    unfolding listing_0_old c d
    by (simp add: listing_0_def deleted_simps env_delete_fails_def)
qed

text \<open>
  The claim as worded fails on that listing when every call succeeds: the stray
  \<^verbatim>\<open>notes.txt\<close>, which is no catalog entry, is deleted with the old archive.
\<close>

theorem sweep_deletes_counterexample:
  "deleted env_listing_0 (fst (cleanupOldBackups IndexJs env_listing_0 cfg0 now_0102))
     = [''mysql-backups/full_backup_20231101.tar.gz'', ''mysql-backups/notes.txt''] \<and>
   spec_sweep_keys (now_0102 - retentionDays cfg0 * 24 * 60 * 60 * 1000) listing_0
     = [''mysql-backups/full_backup_20231101.tar.gz'']"
  by code_simp
section \<open>The cleanup of the working root\<close>

lemma removals_append: "removals (xs @ ys) = removals xs @ removals ys"
  by (simp add: removals_def)

lemma removals_simps:
  "removals [] = []"
  "removals (LogError l err # t) = removals t"
  "removals (Do (FsReaddir p) # t) = removals t"
  "removals (Do (FsRm k) # t) = k # removals t"
  by (simp_all add: removals_def)

lemma removeOld_Cons:
  "removeOld v e cfg d (entry # entries) root =
     (if is_old_full d entry then
        bind (catch (perform e (FsRm (path_join (backupRoot cfg) entry)))
                (\<lambda>err. logError v (''Error removing directory '' @
                                     path_join (backupRoot cfg) entry @ '':'') err))
             (\<lambda>_. removeOld v e cfg d entries
                (if rm_ok e cfg entry then filter (\<lambda>(name, _). name \<noteq> entry) root else root))
      else removeOld v e cfg d entries root)"
  by (simp add: is_old_full_def rm_ok_def Let_def)

lemma removeOld_result:
  "snd (removeOld v e cfg d entries root) =
     Inr (filter (\<lambda>(name, _). \<not> (name \<in> set entries \<and> is_old_full d name \<and> rm_ok e cfg name)) root)
   \<and> removals (fst (removeOld v e cfg d entries root)) =
     map (path_join (backupRoot cfg)) (filter (is_old_full d) entries)"
proof (induction entries arbitrary: root)
  case Nil
  then show ?case by (simp add: run_simps removals_simps)
next
  case (Cons entry entries)
  let ?P = "\<lambda>es. (\<lambda>(name, _::node). \<not> (name \<in> set es \<and> is_old_full d name \<and> rm_ok e cfg name))"
  have f: "filter (?P entries) (filter (\<lambda>(name, _). name \<noteq> entry) root)
             = filter (?P (entry # entries)) root"
    if "is_old_full d entry" "rm_ok e cfg entry"
    using that by (induction root) auto
  have g: "filter (?P entries) root = filter (?P (entry # entries)) root"
    if "\<not> (is_old_full d entry \<and> rm_ok e cfg entry)"
    using that by (induction root) auto
  consider (rm) "is_old_full d entry" "rm_ok e cfg entry"
    | (fail) "is_old_full d entry" "\<not> rm_ok e cfg entry"
    | (keep) "\<not> is_old_full d entry" by blast
  then show ?case
  proof cases
    case rm
    then have io: "\<not> io_fails e (FsRm (path_join (backupRoot cfg) entry))"
      by (simp add: rm_ok_def)
    show ?thesis
      unfolding removeOld_Cons
      using rm io Cons.IH [of "filter (\<lambda>(name, _). name \<noteq> entry) root"] f [OF rm]
      by (simp add: run_simps removals_append removals_simps)
  next
    case fail
    then have io: "io_fails e (FsRm (path_join (backupRoot cfg) entry))"
      by (simp add: rm_ok_def)
    show ?thesis
      unfolding removeOld_Cons
      using fail io Cons.IH [of root] g
      by (simp add: run_simps removals_append removals_simps)
  next
    case keep
    show ?thesis
      unfolding removeOld_Cons
      using keep Cons.IH [of root] g
      by simp
  qed
qed

lemma removeOld_returns: "\<exists>r. snd (removeOld v e cfg d entries root) = Inr r"
  using removeOld_result [of v e cfg d entries root] by blast

lemma removeOld_trace:
  "fst (removeOld v e cfg d entries root) =
     concat (map (\<lambda>entry.
         if rm_ok e cfg entry then [Do (FsRm (path_join (backupRoot cfg) entry))]
         else [Do (FsRm (path_join (backupRoot cfg) entry)),
               LogError (''Error removing directory '' @ path_join (backupRoot cfg) entry @ '':'')
                 (IOFailure (FsRm (path_join (backupRoot cfg) entry)))])
       (filter (is_old_full d) entries))"
proof (induction entries arbitrary: root)
  case Nil
  then show ?case by (simp add: run_simps)
next
  case (Cons entry entries)
  show ?case
    unfolding removeOld_Cons
    using Cons.IH [of root] Cons.IH [of "filter (\<lambda>(name, _). name \<noteq> entry) root"]
    by (simp add: run_simps rm_ok_def sanitizeError_def)
qed

lemma filter_fst_mem:
  "filter (\<lambda>(name, _). \<not> (name \<in> set (map fst root) \<and> Q name)) root
     = filter (\<lambda>(name, _). \<not> Q name) root"
  by (rule filter_cong) (auto simp: rev_image_eqI)

lemma today_not_old: "\<not> is_old_full d (''full_backup_'' @ d)"
  by (simp add: is_old_full_def)

lemma inc_not_old: "startsWith name ''inc_backup_'' \<Longrightarrow> \<not> is_old_full d name"
  by (cases name) (auto simp: is_old_full_def startsWith_def)

lemma performFullBackup_starts_with_cleanup:
  "\<exists>rest. fst (performFullBackup v e cfg root now)
     = fst (cleanupOldDirectories v e cfg root (formatDate now)) @ rest"
  by (simp add: performFullBackup_def Let_def fst_catch fst_bind)

text \<open>
  C10 (as amended). The Full Backup Procedure begins with the cleanup. When the working
  root can be read, the cleanup is exactly this run: the directory is read; then, in the
  order of its entries, \<^verbatim>\<open>fs.rm\<close> is called on each entry, file or directory alike, whose
  name starts with \<^verbatim>\<open>full_backup_\<close> and differs from \<^verbatim>\<open>full_backup_<today>\<close>, and a call
  that throws is followed by one line on the error stream, under
  \<^verbatim>\<open>Error removing directory <path>:\<close>, carrying the failure; nothing else happens. The
  cleanup returns the working root without the entries whose removal did not throw: an
  entry whose removal threw is kept, and so is every other entry, among them today's
  full-backup directory and every entry named \<^verbatim>\<open>inc_backup_*\<close>.
\<close>

theorem cleanup_removes:
  assumes "\<not> io_fails e (FsReaddir (backupRoot cfg))"
  shows "fst (cleanupOldDirectories v e cfg root d) =
     Do (FsReaddir (backupRoot cfg)) #
     concat (map (\<lambda>entry.
         if rm_ok e cfg entry then [Do (FsRm (path_join (backupRoot cfg) entry))]
         else [Do (FsRm (path_join (backupRoot cfg) entry)),
               LogError (''Error removing directory '' @ path_join (backupRoot cfg) entry @ '':'')
                 (IOFailure (FsRm (path_join (backupRoot cfg) entry)))])
       (filter (is_old_full d) (map fst root)))
   \<and> snd (cleanupOldDirectories v e cfg root d) =
           Inr (filter (\<lambda>(name, _). \<not> (is_old_full d name \<and> rm_ok e cfg name)) root)
   \<and> removals (fst (cleanupOldDirectories v e cfg root d)) =
         map (path_join (backupRoot cfg)) (filter (is_old_full d) (map fst root))
   \<and> \<not> is_old_full d (''full_backup_'' @ d)
   \<and> (\<forall>name. startsWith name ''inc_backup_'' \<longrightarrow> \<not> is_old_full d name)
   \<and> (\<exists>rest. fst (performFullBackup v e cfg root now) =
                 fst (cleanupOldDirectories v e cfg root (formatDate now)) @ rest)"
proof -
  have "filter (\<lambda>(name, _). \<not> (name \<in> set (map fst root) \<and> is_old_full d name \<and> rm_ok e cfg name)) root
      = filter (\<lambda>(name, _). \<not> (is_old_full d name \<and> rm_ok e cfg name)) root"
    by (rule filter_fst_mem)
  with assms removeOld_result [of v e cfg d "map fst root" root]
  have "snd (cleanupOldDirectories v e cfg root d) =
           Inr (filter (\<lambda>(name, _). \<not> (is_old_full d name \<and> rm_ok e cfg name)) root)
   \<and> removals (fst (cleanupOldDirectories v e cfg root d)) =
         map (path_join (backupRoot cfg)) (filter (is_old_full d) (map fst root))"
    by (simp add: cleanupOldDirectories_def run_simps removals_append removals_simps del: set_map)
  moreover have "fst (cleanupOldDirectories v e cfg root d) =
     Do (FsReaddir (backupRoot cfg)) #
     concat (map (\<lambda>entry.
         if rm_ok e cfg entry then [Do (FsRm (path_join (backupRoot cfg) entry))]
         else [Do (FsRm (path_join (backupRoot cfg) entry)),
               LogError (''Error removing directory '' @ path_join (backupRoot cfg) entry @ '':'')
                 (IOFailure (FsRm (path_join (backupRoot cfg) entry)))])
       (filter (is_old_full d) (map fst root)))"
    using assms
    by (simp add: cleanupOldDirectories_def fst_bind fst_perform snd_perform removeOld_trace)
  ultimately show ?thesis
    using today_not_old [of d] inc_not_old [of _ d]
      performFullBackup_starts_with_cleanup [of v e cfg root now]
    by blast
qed

theorem cleanup_removes_witness:
  "\<not> io_fails env_rm_fails (FsReaddir (backupRoot cfg0)) \<and>
   fst (cleanupOldDirectories IndexJs env_rm_fails cfg0 root_yesterday ''20240101'') =
     [Do (FsReaddir ''/tmp/mysql-backup-1''),
      Do (FsRm ''/tmp/mysql-backup-1/full_backup_20231231''),
      LogError ''Error removing directory /tmp/mysql-backup-1/full_backup_20231231:''
        (IOFailure (FsRm ''/tmp/mysql-backup-1/full_backup_20231231'')),
      Do (FsRm ''/tmp/mysql-backup-1/full_backup_20231231.tar.gz'')] \<and>
   snd (cleanupOldDirectories IndexJs env_rm_fails cfg0 root_yesterday ''20240101'') =
     Inr [(''full_backup_20231231'', Dir [''xtrabackup_checkpoints'', ''ibdata1'']),
          (''inc_backup_20231231230000'', Dir [''xtrabackup_checkpoints''])]"
proof -
  have a: "\<not> io_fails env_rm_fails (FsReaddir (backupRoot cfg0))"
    by (simp add: env_rm_fails_def)
  have b: "filter (is_old_full ''20240101'') (map fst root_yesterday)
      = [''full_backup_20231231'', ''full_backup_20231231.tar.gz'']"
    by (simp add: root_yesterday_def is_old_full_def startsWith_def)
  have d: "\<not> rm_ok env_rm_fails cfg0 ''full_backup_20231231''"
    "rm_ok env_rm_fails cfg0 ''full_backup_20231231.tar.gz''"
    by (simp_all add: rm_ok_def env_rm_fails_def path_join_def cfg0_def)
  have f: "filter (\<lambda>(name, _). \<not> (is_old_full ''20240101'' name \<and> rm_ok env_rm_fails cfg0 name))
             root_yesterday
     = [(''full_backup_20231231'', Dir [''xtrabackup_checkpoints'', ''ibdata1'']),
        (''inc_backup_20231231230000'', Dir [''xtrabackup_checkpoints''])]"
    using d by (simp add: root_yesterday_def is_old_full_def startsWith_def)
  show ?thesis
    using cleanup_removes [OF a, of IndexJs root_yesterday "''20240101''"] a d
    unfolding b f by (simp add: path_join_def cfg0_def)
qed

text \<open>
  The claim as worded fails on that working root when every call succeeds: the left-over
  archive \<^verbatim>\<open>full_backup_20231231.tar.gz\<close> is a file, not a directory, and is removed all
  the same.
\<close>

theorem cleanup_removes_counterexample:
  "snd (cleanupOldDirectories IndexJs ok_env cfg0 root_yesterday ''20240101'')
     \<noteq> Inr (spec_cleanup ''20240101'' root_yesterday)"
  by code_simp
section \<open>One scheduler tick\<close>

lemma local_event_simps:
  "local_event (Do (FsAccess p))" "local_event (Do (FsReaddir p))" "local_event (Do (FsRm p))"
  "local_event (Do (FsMkdir p))" "local_event (Do (FsReadFile p))" "local_event (Spawn c args)"
  "local_event (LogError l (IOFailure (FsRm p)))"
  "\<not> local_event (Do (S3Put k))"
  by (simp_all add: local_event_def)

lemma working_event_simps:
  "working_event (Do (FsAccess p))" "working_event (Do (FsReaddir p))"
  "working_event (Do (FsRm p))" "working_event (Do (FsMkdir p))"
  "working_event (Do (FsReadFile p))" "working_event (Do (FsUnlink p))"
  "working_event (Do (S3Put p))" "working_event (Do (S3List q))"
  "working_event (Do (S3Delete p))" "working_event (Spawn c args)"
  "working_event (LogError l err)"
  by (simp_all add: working_event_def)

lemma cleanup_events:
  "list_all local_event (fst (removeOld v e cfg d entries root))"
  unfolding removeOld_trace
  by (induction entries) (simp_all add: local_event_simps)

lemma cleanup_working:
  "list_all working_event (fst (removeOld v e cfg d entries root))"
  unfolding removeOld_trace
  by (induction entries) (simp_all add: working_event_simps)

lemma cleanup_no_store_call:
  "Do (S3Put k) \<notin> set (fst (removeOld v e cfg d entries root))"
  "is_sweep_call a \<Longrightarrow> Do a \<notin> set (fst (removeOld v e cfg d entries root))"
  unfolding removeOld_trace
  by (induction entries) (auto simp: is_sweep_call_def)

lemma fst_ping:
  "fst (pingHealthcheck v e cfg) =
     (if healthCheckUrl cfg = [] then []
      else if io_fails e (HttpGet (healthCheckUrl cfg))
      then [Do (HttpGet (healthCheckUrl cfg)),
            LogError ''Failed to ping healthcheck:'' (IOFailure (HttpGet (healthCheckUrl cfg)))]
      else [Do (HttpGet (healthCheckUrl cfg))])"
  by (simp add: pingHealthcheck_def run_simps sanitizeError_def)

lemma ping_returns: "snd (pingHealthcheck v e cfg) = Inr ()"
  by (simp add: pingHealthcheck_def run_simps split: sum.splits)

lemma probe_events: "list_all local_event (fst (getCurrentFullBackupDir v cfg root now))"
  by (simp add: getCurrentFullBackupDir_def Let_def local_event_simps split: option.splits)

lemma probe_working: "list_all working_event (fst (getCurrentFullBackupDir v cfg root now))"
  by (simp add: getCurrentFullBackupDir_def Let_def working_event_simps split: option.splits)

lemma probe_no_call: "Do (S3Put k) \<notin> set (fst (getCurrentFullBackupDir v cfg root now))"
  "is_sweep_call a \<Longrightarrow> Do a \<notin> set (fst (getCurrentFullBackupDir v cfg root now))"
  by (auto simp: getCurrentFullBackupDir_def Let_def is_sweep_call_def split: option.splits)

lemma probe_returns: "\<exists>b. snd (getCurrentFullBackupDir v cfg root now) = Inr b"
  by (simp add: getCurrentFullBackupDir_def Let_def split: option.splits)


lemma fst_cleanup:
  "fst (cleanupOldDirectories v e cfg root d) =
     Do (FsReaddir (backupRoot cfg)) #
     (if io_fails e (FsReaddir (backupRoot cfg)) then []
      else fst (removeOld v e cfg d (map fst root) root))"
  by (simp add: cleanupOldDirectories_def run_simps)

lemma snd_cleanup:
  "snd (cleanupOldDirectories v e cfg root d) =
     (if io_fails e (FsReaddir (backupRoot cfg)) then Inl (IOFailure (FsReaddir (backupRoot cfg)))
      else snd (removeOld v e cfg d (map fst root) root))"
  by (simp add: cleanupOldDirectories_def run_simps)

lemma full_upload_failure:
  assumes "Do (S3Put k) \<in> set (fst (performFullBackup v e cfg root now))"
    and "io_fails e (S3Put k)"
  shows "performFullBackup v e cfg root now =
     (fst (cleanupOldDirectories v e cfg root (formatDate now)) @
      [Do (FsMkdir (path_join (backupRoot cfg) (''full_backup_'' @ formatDate now))),
       Spawn ''xtrabackup''
         (backupArgs v cfg @
          [''--target-dir='' @ path_join (backupRoot cfg) (''full_backup_'' @ formatDate now),
           ''--no-lock'']),
       Spawn ''tar''
         [''czf'', path_join (backupRoot cfg) (''full_backup_'' @ formatDate now @ ''.tar.gz''),
          ''-C'', path_join (backupRoot cfg) (''full_backup_'' @ formatDate now), ''.''],
       Do (FsReadFile (path_join (backupRoot cfg) (''full_backup_'' @ formatDate now @ ''.tar.gz''))),
       Do (S3Put k),
       LogError ''Error during full backup:'' (IOFailure (S3Put k))],
      Inl (IOFailure (S3Put k)))"
proof -
  obtain r where r: "snd (removeOld v e cfg (formatDate now) (map fst root) root) = Inr r"
    using removeOld_returns by blast
  define R where "R = fst (removeOld v e cfg (formatDate now) (map fst root) root)"
  have R2: "Do (S3Put k) \<notin> set R"
    unfolding R_def by (rule cleanup_no_store_call)
  show ?thesis
    using assms r R2
    by (auto simp add: performFullBackup_def fst_cleanup snd_cleanup uploadToB2_def Let_def run_simps
        snd_runCommand seq_simps prod_eq_iff sanitizeError_def
        simp flip: R_def split: if_splits)
qed

lemma inc_upload_failure:
  assumes "Do (S3Put k) \<in> set (fst (performIncrementalBackup v e cfg dir now))"
    and "io_fails e (S3Put k)"
  shows "performIncrementalBackup v e cfg dir now =
     ([Do (FsMkdir (path_join (backupRoot cfg) (''inc_backup_'' @ formatDateTime now))),
       Spawn ''xtrabackup''
         (backupArgs v cfg @
          [''--target-dir='' @ path_join (backupRoot cfg) (''inc_backup_'' @ formatDateTime now),
           ''--incremental-basedir='' @ dir, ''--no-lock'']),
       Spawn ''tar''
         [''czf'', path_join (backupRoot cfg) (''inc_backup_'' @ formatDateTime now @ ''.tar.gz''),
          ''-C'', path_join (backupRoot cfg) (''inc_backup_'' @ formatDateTime now), ''.''],
       Do (FsReadFile
             (path_join (backupRoot cfg) (''inc_backup_'' @ formatDateTime now @ ''.tar.gz''))),
       Do (S3Put k),
       LogError ''Error during incremental backup:'' (IOFailure (S3Put k))],
      Inl (IOFailure (S3Put k)))"
  using assms
  by (auto simp add: performIncrementalBackup_def uploadToB2_def Let_def run_simps
        snd_runCommand seq_simps prod_eq_iff sanitizeError_def split: if_splits)

lemma bind_all:
  assumes "list_all P (fst m)" and "\<And>x. list_all P (fst (f x))"
  shows "list_all P (fst (bind m f))"
  using assms by (simp add: fst_bind split: sum.splits)

lemma catch_all:
  assumes "list_all P (fst m)" and "\<And>err. list_all P (fst (h err))"
  shows "list_all P (fst (catch m h))"
  using assms by (simp add: fst_catch split: sum.splits)

lemma seq_all:
  assumes "\<And>m. m \<in> set ms \<Longrightarrow> list_all P (fst m)"
  shows "list_all P (fst (seq ms))"
  using assms by (induction ms) (simp_all add: run_ret bind_all)

lemma bind_working:
  assumes "snd m \<noteq> Inl ProcessEnded \<Longrightarrow> list_all working_event (fst m)"
    and "\<And>x. snd (f x) \<noteq> Inl ProcessEnded \<Longrightarrow> list_all working_event (fst (f x))"
    and "snd (bind m f) \<noteq> Inl ProcessEnded"
  shows "list_all working_event (fst (bind m f))"
  using assms by (cases "snd m") (auto simp: fst_bind snd_bind)

lemma catch_working:
  assumes "snd m \<noteq> Inl ProcessEnded \<Longrightarrow> list_all working_event (fst m)"
    and "\<And>err. list_all working_event (fst (h err))"
    and "snd (catch m h) \<noteq> Inl ProcessEnded"
  shows "list_all working_event (fst (catch m h))"
  using assms by (cases "snd m") (auto simp: fst_catch snd_catch split: if_splits)

lemma seq_working:
  assumes "\<And>m. m \<in> set ms \<Longrightarrow> snd m \<noteq> Inl ProcessEnded \<Longrightarrow> list_all working_event (fst m)"
    and "snd (seq ms) \<noteq> Inl ProcessEnded"
  shows "list_all working_event (fst (seq ms))"
  using assms
proof (induction ms)
  case Nil
  then show ?case by (simp add: run_ret)
next
  case (Cons m ms)
  show ?case
    unfolding seq.simps
  proof (rule bind_working)
    show "snd m \<noteq> Inl ProcessEnded \<Longrightarrow> list_all working_event (fst m)"
      using Cons.prems(1) by simp
    show "snd (seq ms) \<noteq> Inl ProcessEnded \<Longrightarrow> list_all working_event (fst (seq ms))" for x :: unit
      using Cons.IH Cons.prems(1) by simp
    show "snd (bind m (\<lambda>_. seq ms)) \<noteq> Inl ProcessEnded"
      using Cons.prems(2) by simp
  qed
qed

lemma perform_working: "list_all working_event (fst (perform e a)) = (\<forall>u. a \<noteq> HttpGet u)"
  by (cases a) (simp_all add: fst_perform working_event_def)

lemma runCommand_working:
  "snd (runCommand v e c args) \<noteq> Inl ProcessEnded \<Longrightarrow>
     list_all working_event (fst (runCommand v e c args))"
  by (simp add: runCommand_def working_event_def split: if_splits)

lemma upload_working: "list_all working_event (fst (uploadToB2 e cfg f k))"
  by (simp add: uploadToB2_def Let_def run_simps seq_simps working_event_simps split: sum.splits)

lemma rethrow_working:
  "list_all working_event (fst (bind (logError v l err) (\<lambda>_. throw err)))"
  by (simp add: run_simps working_event_simps)

lemma full_working:
  assumes "snd (performFullBackup v e cfg root now) \<noteq> Inl ProcessEnded"
  shows "list_all working_event (fst (performFullBackup v e cfg root now))"
  using assms unfolding performFullBackup_def Let_def
  apply (rule catch_working [rotated 2])
   apply (rule bind_working [rotated 2], assumption)
    apply (simp add: fst_cleanup cleanup_working working_event_simps)
   apply (rule bind_working [rotated 2], assumption)
    apply (rule seq_working, auto simp: perform_working runCommand_working upload_working run_ret) [1]
   apply (simp add: run_ret)
  apply (rule rethrow_working)
  done

lemma inc_working:
  assumes "snd (performIncrementalBackup v e cfg dir now) \<noteq> Inl ProcessEnded"
  shows "list_all working_event (fst (performIncrementalBackup v e cfg dir now))"
  using assms unfolding performIncrementalBackup_def Let_def
  apply (rule catch_working [rotated 2])
   apply (rule seq_working, auto simp: perform_working runCommand_working upload_working) [1]
  apply (rule rethrow_working)
  done

lemma not_call_perform:
  "list_all (\<lambda>ev. ev \<noteq> Do a) (fst (perform e b)) = (a \<noteq> b)"
  by (auto simp: fst_perform)

lemma not_call_runCommand: "list_all (\<lambda>ev. ev \<noteq> Do a) (fst (runCommand v e c args))"
  by (simp add: fst_runCommand)

lemma not_call_upload:
  "is_sweep_call a \<Longrightarrow> list_all (\<lambda>ev. ev \<noteq> Do a) (fst (uploadToB2 e cfg f k))"
  by (auto simp: uploadToB2_def Let_def run_simps seq_simps is_sweep_call_def split: sum.splits)

lemma not_call_rethrow:
  "list_all (\<lambda>ev. ev \<noteq> Do a) (fst (bind (logError v l err) (\<lambda>_. throw err)))"
  by (simp add: run_simps)

lemma full_no_sweep_call:
  assumes "is_sweep_call a"
  shows "list_all (\<lambda>ev. ev \<noteq> Do a) (fst (performFullBackup v e cfg root now))"
  unfolding performFullBackup_def Let_def
  apply (rule catch_all)
   apply (rule bind_all)
    apply (use assms cleanup_no_store_call(2) [OF assms] in
            \<open>auto simp: fst_cleanup list_all_iff is_sweep_call_def\<close>) [1]
   apply (rule bind_all)
    apply (rule seq_all)
    apply (use assms in \<open>auto simp: not_call_perform not_call_runCommand not_call_upload
             is_sweep_call_def\<close>) [1]
   apply (simp add: run_ret)
  apply (rule not_call_rethrow)
  done

lemma inc_no_sweep_call:
  assumes "is_sweep_call a"
  shows "list_all (\<lambda>ev. ev \<noteq> Do a) (fst (performIncrementalBackup v e cfg dir now))"
  unfolding performIncrementalBackup_def Let_def
  apply (rule catch_all)
   apply (rule seq_all)
   apply (use assms in \<open>auto simp: not_call_perform not_call_runCommand not_call_upload
             is_sweep_call_def\<close>) [1]
  apply (rule not_call_rethrow)
  done

lemma runBackup_run:
  assumes "snd (getCurrentFullBackupDir v cfg root (probe_time clk)) = Inr b"
  shows "runBackup v e cfg root clk =
     (fst (getCurrentFullBackupDir v cfg root (probe_time clk)) @
      fst (backupProcedure v e cfg root (backup_time clk) b) @
      (case snd (backupProcedure v e cfg root (backup_time clk) b) of
         Inl err \<Rightarrow>
           if err = ProcessEnded then []
           else [LogError ''Backup failed:'' (if v = Part000 then err else sanitizeError err),
                 Exit 1]
       | Inr _ \<Rightarrow> fst (cleanupOldBackups v e cfg (sweep_time clk)) @ fst (pingHealthcheck v e cfg)),
      case snd (backupProcedure v e cfg root (backup_time clk) b) of
         Inl err \<Rightarrow> if err = ProcessEnded then Inl ProcessEnded else Inr ()
       | Inr _ \<Rightarrow> Inr ())"
  using assms
  by (simp add: prod_eq_iff runBackup_def backupProcedure_def run_simps seq_simps
      cleanupOldBackups_returns ping_returns split: sum.splits option.splits)

lemma procedure_upload_failure:
  assumes "Do (S3Put k) \<in> set (fst (backupProcedure v e cfg root now b))"
    and "io_fails e (S3Put k)"
  shows "\<exists>pre label. backupProcedure v e cfg root now b =
            (pre @ [Do (S3Put k), LogError label (IOFailure (S3Put k))], Inl (IOFailure (S3Put k))) \<and>
          (label = ''Error during full backup:'' \<or> label = ''Error during incremental backup:'') \<and>
          list_all local_event pre"
proof (cases b)
  case None
  have m: "Do (S3Put k) \<in> set (fst (performFullBackup v e cfg root now))"
    using assms(1) by (simp add: None backupProcedure_def fst_bind run_ret split: sum.splits)
  note u = full_upload_failure [OF m assms(2)]
  have "backupProcedure v e cfg root now b =
     ((fst (cleanupOldDirectories v e cfg root (formatDate now)) @
      [Do (FsMkdir (path_join (backupRoot cfg) (''full_backup_'' @ formatDate now))),
       Spawn ''xtrabackup''
         (backupArgs v cfg @
          [''--target-dir='' @ path_join (backupRoot cfg) (''full_backup_'' @ formatDate now),
           ''--no-lock'']),
       Spawn ''tar''
         [''czf'', path_join (backupRoot cfg) (''full_backup_'' @ formatDate now @ ''.tar.gz''),
          ''-C'', path_join (backupRoot cfg) (''full_backup_'' @ formatDate now), ''.''],
       Do (FsReadFile (path_join (backupRoot cfg) (''full_backup_'' @ formatDate now @ ''.tar.gz'')))]) @
       [Do (S3Put k), LogError ''Error during full backup:'' (IOFailure (S3Put k))],
      Inl (IOFailure (S3Put k)))"
    unfolding None backupProcedure_def option.case u by (simp add: bind_def)
  moreover have "list_all local_event
     (fst (cleanupOldDirectories v e cfg root (formatDate now)) @
      [Do (FsMkdir (path_join (backupRoot cfg) (''full_backup_'' @ formatDate now))),
       Spawn ''xtrabackup''
         (backupArgs v cfg @
          [''--target-dir='' @ path_join (backupRoot cfg) (''full_backup_'' @ formatDate now),
           ''--no-lock'']),
       Spawn ''tar''
         [''czf'', path_join (backupRoot cfg) (''full_backup_'' @ formatDate now @ ''.tar.gz''),
          ''-C'', path_join (backupRoot cfg) (''full_backup_'' @ formatDate now), ''.''],
       Do (FsReadFile (path_join (backupRoot cfg) (''full_backup_'' @ formatDate now @ ''.tar.gz'')))])"
    by (simp add: fst_cleanup cleanup_events local_event_simps)
  ultimately show ?thesis by blast
next
  case (Some dir)
  have m: "Do (S3Put k) \<in> set (fst (performIncrementalBackup v e cfg dir now))"
    using assms(1) by (simp add: Some backupProcedure_def)
  note u = inc_upload_failure [OF m assms(2)]
  have "backupProcedure v e cfg root now b =
     ([Do (FsMkdir (path_join (backupRoot cfg) (''inc_backup_'' @ formatDateTime now))),
       Spawn ''xtrabackup''
         (backupArgs v cfg @
          [''--target-dir='' @ path_join (backupRoot cfg) (''inc_backup_'' @ formatDateTime now),
           ''--incremental-basedir='' @ dir, ''--no-lock'']),
       Spawn ''tar''
         [''czf'', path_join (backupRoot cfg) (''inc_backup_'' @ formatDateTime now @ ''.tar.gz''),
          ''-C'', path_join (backupRoot cfg) (''inc_backup_'' @ formatDateTime now), ''.''],
       Do (FsReadFile
             (path_join (backupRoot cfg) (''inc_backup_'' @ formatDateTime now @ ''.tar.gz'')))] @
       [Do (S3Put k), LogError ''Error during incremental backup:'' (IOFailure (S3Put k))],
      Inl (IOFailure (S3Put k)))"
    unfolding Some backupProcedure_def option.case u by simp
  moreover have "list_all local_event
     [Do (FsMkdir (path_join (backupRoot cfg) (''inc_backup_'' @ formatDateTime now))),
       Spawn ''xtrabackup''
         (backupArgs v cfg @
          [''--target-dir='' @ path_join (backupRoot cfg) (''inc_backup_'' @ formatDateTime now),
           ''--incremental-basedir='' @ dir, ''--no-lock'']),
       Spawn ''tar''
         [''czf'', path_join (backupRoot cfg) (''inc_backup_'' @ formatDateTime now @ ''.tar.gz''),
          ''-C'', path_join (backupRoot cfg) (''inc_backup_'' @ formatDateTime now), ''.''],
       Do (FsReadFile
             (path_join (backupRoot cfg) (''inc_backup_'' @ formatDateTime now @ ''.tar.gz'')))]"
    by (simp add: local_event_simps)
  ultimately show ?thesis by blast
qed

lemma procedure_working:
  assumes "snd (backupProcedure v e cfg root now b) \<noteq> Inl ProcessEnded"
  shows "list_all working_event (fst (backupProcedure v e cfg root now b))"
proof (cases b)
  case None
  have "snd (performFullBackup v e cfg root now) \<noteq> Inl ProcessEnded"
    using assms by (auto simp: None backupProcedure_def snd_bind)
  then show ?thesis
    using full_working [of v e cfg root now]
    by (simp add: None backupProcedure_def fst_bind run_ret split: sum.splits)
next
  case (Some dir)
  then show ?thesis using assms inc_working [of v e cfg dir now]
    by (simp add: backupProcedure_def)
qed

lemma procedure_no_sweep_call:
  assumes "is_sweep_call a"
  shows "Do a \<notin> set (fst (backupProcedure v e cfg root now b))"
  using full_no_sweep_call [OF assms, of v e cfg root now]
    inc_no_sweep_call [OF assms, of v e cfg _ now]
  by (cases b) (auto simp: backupProcedure_def fst_bind run_ret list_all_iff split: sum.splits)

lemma sweep_failure:
  assumes "Do a \<in> set (fst (cleanupOldBackups v e cfg now))" and "io_fails e a"
  shows "\<exists>pre. fst (cleanupOldBackups v e cfg now) =
            pre @ [Do a, LogError ''Error cleaning up old backups:'' (IOFailure a)] \<and>
          list_all working_event pre"
proof -
  let ?p = "if s3BackupDir cfg \<noteq> [] then Some (strip_slashes (s3BackupDir cfg) @ ''/'') else None"
  show ?thesis
  proof (cases "io_fails e (S3List ?p)")
    case True
    have "fst (cleanupOldBackups v e cfg now) =
        [] @ [Do (S3List ?p), LogError ''Error cleaning up old backups:'' (IOFailure (S3List ?p))]"
      by (simp add: sweep_list_fails [OF True])
    moreover have "a = S3List ?p"
      using assms(1) by (simp add: sweep_list_fails [OF True])
    ultimately show ?thesis by (intro exI [of _ "[]"]) simp
  next
    case False
    show ?thesis
    proof (cases "s3_contents e")
      case None
      have "a = S3List ?p"
        using assms(1) by (simp add: sweep_no_contents [OF False None])
      with False assms(2) show ?thesis by simp
    next
      case (Some contents)
      define olds where
        "olds = filter (old_object (now - retentionDays cfg * 24 * 60 * 60 * 1000)) contents"
      define calls where
        "calls = map (\<lambda>obj. Do (S3Delete (Key obj))) (takeWhile (delete_ok e) olds)"
      have t: "fst (cleanupOldBackups v e cfg now) =
          Do (S3List ?p) # calls @
          (case dropWhile (delete_ok e) olds of [] \<Rightarrow> []
           | obj # rest \<Rightarrow>
               [Do (S3Delete (Key obj)),
                LogError ''Error cleaning up old backups:'' (IOFailure (S3Delete (Key obj)))])"
        unfolding sweep_run [OF False Some] fst_conv olds_def calls_def ..
      have c1: "Do a \<notin> set calls"
      proof
        assume "Do a \<in> set calls"
        then obtain obj where "obj \<in> set (takeWhile (delete_ok e) olds)" "a = S3Delete (Key obj)"
          unfolding calls_def by auto
        then have "delete_ok e obj" "a = S3Delete (Key obj)"
          by (auto dest: set_takeWhileD)
        with assms(2) show False by (simp add: delete_ok_def)
      qed
      have c2: "a \<noteq> S3List ?p"
        using assms(2) False by auto
      have c3: "list_all working_event (Do (S3List ?p) # calls)"
        unfolding calls_def by (simp add: working_event_simps list_all_iff)
      show ?thesis
      proof (cases "dropWhile (delete_ok e) olds")
        case Nil
        have "Do a \<in> set (Do (S3List ?p) # calls)"
          using assms(1) unfolding t Nil by simp
        with c1 c2 show ?thesis by simp
      next
        case (Cons obj rest)
        have "a = S3Delete (Key obj)"
          using assms(1) c1 c2 unfolding t Cons by simp
        then have "fst (cleanupOldBackups v e cfg now) =
            (Do (S3List ?p) # calls) @
            [Do a, LogError ''Error cleaning up old backups:'' (IOFailure a)]"
          unfolding t Cons by simp
        then show ?thesis using c3 by blast
      qed
    qed
  qed
qed

lemma sweep_no_put: "Do (S3Put k) \<notin> set (fst (cleanupOldBackups v e cfg now))"
proof (cases "io_fails e (S3List (if s3BackupDir cfg \<noteq> []
                                  then Some (strip_slashes (s3BackupDir cfg) @ ''/'') else None))")
  case True
  then show ?thesis by (simp add: sweep_list_fails)
next
  case False
  show ?thesis
  proof (cases "s3_contents e")
    case None
    then show ?thesis using False by (simp add: sweep_no_contents)
  next
    case (Some contents)
    show ?thesis
      unfolding sweep_run [OF False Some] fst_conv
      by (cases "dropWhile (delete_ok e)
            (filter (old_object (now - retentionDays cfg * 24 * 60 * 60 * 1000)) contents)")
         (auto simp del: dropWhile_eq_Nil_conv)
  qed
qed

text \<open>
  C9 (as amended). A store failure during the upload of a backup procedure is fatal to
  the tick, and nothing is retried: up to the failing upload call the tick made no call
  on the store at all, only local events; after the call come the procedure's own line
  on the error stream, the report \<^verbatim>\<open>Backup failed:\<close>, both carrying the failure, and
  \<^verbatim>\<open>process.exit(1)\<close>; there is no sweep and no liveness ping. A store failure during
  the Retention Sweep (the list call or a delete) is not fatal: the failing call is
  followed by one line on the error stream under \<^verbatim>\<open>Error cleaning up old backups:\<close>,
  carrying the failure; the sweep ends there and the liveness ping comes next, when a URL
  is configured, with its own failure logged if it fails; nothing before the failing call
  ended the process or pinged, the process does not exit, and the tick returns normally.
\<close>

theorem store_failure_fatality:
  "(Do (S3Put k) \<in> set (fst (runBackup v e cfg root clk)) \<and> io_fails e (S3Put k) \<longrightarrow>
      (\<exists>pre label.
         runBackup v e cfg root clk =
           (pre @ [Do (S3Put k), LogError label (IOFailure (S3Put k)),
                   LogError ''Backup failed:'' (IOFailure (S3Put k)), Exit 1], Inr ()) \<and>
         (label = ''Error during full backup:'' \<or> label = ''Error during incremental backup:'') \<and>
         list_all local_event pre))
   \<and> (Do a \<in> set (fst (runBackup v e cfg root clk)) \<and> io_fails e a \<and> is_sweep_call a \<longrightarrow>
      (\<exists>pre.
         runBackup v e cfg root clk =
           (pre @ [Do a, LogError ''Error cleaning up old backups:'' (IOFailure a)] @
            (if healthCheckUrl cfg = [] then []
             else if io_fails e (HttpGet (healthCheckUrl cfg))
             then [Do (HttpGet (healthCheckUrl cfg)),
                   LogError ''Failed to ping healthcheck:''
                     (IOFailure (HttpGet (healthCheckUrl cfg)))]
             else [Do (HttpGet (healthCheckUrl cfg))]), Inr ()) \<and>
         list_all working_event pre))"
proof -
  obtain b where b: "snd (getCurrentFullBackupDir v cfg root (probe_time clk)) = Inr b"
    using probe_returns by blast
  define probe where "probe = fst (getCurrentFullBackupDir v cfg root (probe_time clk))"
  define P where "P = backupProcedure v e cfg root (backup_time clk) b"
  define sweep where "sweep = fst (cleanupOldBackups v e cfg (sweep_time clk))"
  define ping where "ping = fst (pingHealthcheck v e cfg)"
  note tr = runBackup_run [OF b, of e, folded probe_def P_def sweep_def ping_def]
  have ping: "ping =
            (if healthCheckUrl cfg = [] then []
             else if io_fails e (HttpGet (healthCheckUrl cfg))
             then [Do (HttpGet (healthCheckUrl cfg)),
                   LogError ''Failed to ping healthcheck:''
                     (IOFailure (HttpGet (healthCheckUrl cfg)))]
             else [Do (HttpGet (healthCheckUrl cfg))])"
    unfolding ping_def by (rule fst_ping)
  have put_probe: "Do (S3Put k) \<notin> set probe"
    unfolding probe_def by (rule probe_no_call)
  have put_sweep: "Do (S3Put k) \<notin> set sweep"
    unfolding sweep_def by (rule sweep_no_put)
  have put_ping: "Do (S3Put k) \<notin> set ping"
    unfolding ping by simp
  have call_probe: "Do a \<notin> set probe" if "is_sweep_call a"
    unfolding probe_def using that by (rule probe_no_call)
  have call_P: "Do a \<notin> set (fst P)" if "is_sweep_call a"
    unfolding P_def using that by (rule procedure_no_sweep_call)
  have call_ping: "Do a \<notin> set ping" if "is_sweep_call a"
    using that unfolding ping by (auto simp: is_sweep_call_def)
  have one: "\<exists>pre label.
         runBackup v e cfg root clk =
           (pre @ [Do (S3Put k), LogError label (IOFailure (S3Put k)),
                   LogError ''Backup failed:'' (IOFailure (S3Put k)), Exit 1], Inr ()) \<and>
         (label = ''Error during full backup:'' \<or> label = ''Error during incremental backup:'') \<and>
         list_all local_event pre"
    if h: "Do (S3Put k) \<in> set (fst (runBackup v e cfg root clk))" "io_fails e (S3Put k)"
  proof -
    have "Do (S3Put k) \<in> set (fst P)"
      using h(1) put_probe put_sweep put_ping unfolding tr
      by (cases "snd P") (auto split: if_splits)
    from procedure_upload_failure [OF this [unfolded P_def] h(2), folded P_def]
    obtain pre label where p: "P = (pre @ [Do (S3Put k), LogError label (IOFailure (S3Put k))],
                                   Inl (IOFailure (S3Put k)))"
      and l: "label = ''Error during full backup:'' \<or> label = ''Error during incremental backup:''"
      and e: "list_all local_event pre"
      by blast
    have "runBackup v e cfg root clk =
           ((probe @ pre) @ [Do (S3Put k), LogError label (IOFailure (S3Put k)),
                   LogError ''Backup failed:'' (IOFailure (S3Put k)), Exit 1], Inr ())"
      unfolding tr p by (simp add: sanitizeError_def)
    moreover have "list_all local_event (probe @ pre)"
      using e probe_events [of v cfg root "probe_time clk"] by (simp add: probe_def)
    ultimately show ?thesis using l by blast
  qed
  have two: "\<exists>pre.
         runBackup v e cfg root clk =
           (pre @ [Do a, LogError ''Error cleaning up old backups:'' (IOFailure a)] @
            (if healthCheckUrl cfg = [] then []
             else if io_fails e (HttpGet (healthCheckUrl cfg))
             then [Do (HttpGet (healthCheckUrl cfg)),
                   LogError ''Failed to ping healthcheck:''
                     (IOFailure (HttpGet (healthCheckUrl cfg)))]
             else [Do (HttpGet (healthCheckUrl cfg))]), Inr ()) \<and>
         list_all working_event pre"
    if h: "Do a \<in> set (fst (runBackup v e cfg root clk))" "io_fails e a" "is_sweep_call a"
  proof (cases "snd P")
    case (Inl err)
    have "Do a \<notin> set (fst (runBackup v e cfg root clk))"
      using call_probe [OF h(3)] call_P [OF h(3)] unfolding tr Inl by simp
    with h(1) show ?thesis by simp
  next
    case (Inr u)
    have "Do a \<in> set sweep"
      using h(1) call_probe [OF h(3)] call_P [OF h(3)] call_ping [OF h(3)]
      unfolding tr Inr by simp
    from sweep_failure [OF this [unfolded sweep_def] h(2), folded sweep_def]
    obtain spre where s: "sweep = spre @ [Do a, LogError ''Error cleaning up old backups:'' (IOFailure a)]"
      and w: "list_all working_event spre"
      by blast
    have "list_all working_event (fst P)"
      unfolding P_def by (rule procedure_working) (simp add: Inr [unfolded P_def])
    then have "list_all working_event (probe @ fst P @ spre)"
      using w probe_working [of v cfg root "probe_time clk"] by (simp add: probe_def)
    moreover have "runBackup v e cfg root clk =
           ((probe @ fst P @ spre) @
            [Do a, LogError ''Error cleaning up old backups:'' (IOFailure a)] @ ping, Inr ())"
      unfolding tr Inr s by simp
    ultimately show ?thesis unfolding ping by blast
  qed
  show ?thesis using one two by blast
qed

lemma tick_upload_fails:
  "fst (runBackup IndexJs env_upload_fails cfg0 [] clock_0) =
    [Do (FsAccess ''/tmp/mysql-backup-1/full_backup_20240101''),
     Do (FsReaddir ''/tmp/mysql-backup-1''),
     Do (FsMkdir ''/tmp/mysql-backup-1/full_backup_20240101''),
     Spawn ''xtrabackup''
      [''--backup'', ''--user=root'', ''--password=hunter2'', ''--host=mysql'', ''--port=3306'',
       ''--target-dir=/tmp/mysql-backup-1/full_backup_20240101'', ''--no-lock''],
     Spawn ''tar''
      [''czf'', ''/tmp/mysql-backup-1/full_backup_20240101.tar.gz'', ''-C'',
       ''/tmp/mysql-backup-1/full_backup_20240101'', ''.''],
     Do (FsReadFile ''/tmp/mysql-backup-1/full_backup_20240101.tar.gz''),
     Do (S3Put ''mysql-backups/full_backup_20240101.tar.gz''),
     LogError ''Error during full backup:''
      (IOFailure (S3Put ''mysql-backups/full_backup_20240101.tar.gz'')),
     LogError ''Backup failed:'' (IOFailure (S3Put ''mysql-backups/full_backup_20240101.tar.gz'')),
     Exit 1]"
  by code_simp

lemma tick_list_fails:
  "fst (runBackup IndexJs env_list_fails cfg0 root_valid clock_0) =
    [Do (FsAccess ''/tmp/mysql-backup-1/full_backup_20240101''),
     Do (FsAccess ''/tmp/mysql-backup-1/full_backup_20240101/xtrabackup_checkpoints''),
     Do (FsMkdir ''/tmp/mysql-backup-1/inc_backup_20240101060000''),
     Spawn ''xtrabackup''
      [''--backup'', ''--user=root'', ''--password=hunter2'', ''--host=mysql'', ''--port=3306'',
       ''--target-dir=/tmp/mysql-backup-1/inc_backup_20240101060000'',
       ''--incremental-basedir=/tmp/mysql-backup-1/full_backup_20240101'', ''--no-lock''],
     Spawn ''tar''
      [''czf'', ''/tmp/mysql-backup-1/inc_backup_20240101060000.tar.gz'', ''-C'',
       ''/tmp/mysql-backup-1/inc_backup_20240101060000'', ''.''],
     Do (FsReadFile ''/tmp/mysql-backup-1/inc_backup_20240101060000.tar.gz''),
     Do (S3Put ''mysql-backups/inc_backup_20240101060000.tar.gz''),
     Do (FsUnlink ''/tmp/mysql-backup-1/inc_backup_20240101060000.tar.gz''),
     Do (FsRm ''/tmp/mysql-backup-1/inc_backup_20240101060000''),
     Do (S3List (Some ''mysql-backups/'')),
     LogError ''Error cleaning up old backups:'' (IOFailure (S3List (Some ''mysql-backups/''))),
     Do (HttpGet ''https://hc-ping.com/uuid'')]"
  by code_simp

theorem store_failure_fatality_witness:
  "io_fails env_upload_fails (S3Put ''mysql-backups/full_backup_20240101.tar.gz'') \<and>
   Do (S3Put ''mysql-backups/full_backup_20240101.tar.gz'')
     \<in> set (fst (runBackup IndexJs env_upload_fails cfg0 [] clock_0)) \<and>
   (\<exists>pre label.
      runBackup IndexJs env_upload_fails cfg0 [] clock_0 =
        (pre @ [Do (S3Put ''mysql-backups/full_backup_20240101.tar.gz''),
                LogError label (IOFailure (S3Put ''mysql-backups/full_backup_20240101.tar.gz'')),
                LogError ''Backup failed:''
                  (IOFailure (S3Put ''mysql-backups/full_backup_20240101.tar.gz'')),
                Exit 1], Inr ()) \<and>
      (label = ''Error during full backup:'' \<or> label = ''Error during incremental backup:'') \<and>
      list_all local_event pre) \<and>
   io_fails env_list_fails (S3List (Some ''mysql-backups/'')) \<and>
   is_sweep_call (S3List (Some ''mysql-backups/'')) \<and>
   Do (S3List (Some ''mysql-backups/''))
     \<in> set (fst (runBackup IndexJs env_list_fails cfg0 root_valid clock_0)) \<and>
   (\<exists>pre.
      runBackup IndexJs env_list_fails cfg0 root_valid clock_0 =
        (pre @ [Do (S3List (Some ''mysql-backups/'')),
                LogError ''Error cleaning up old backups:''
                  (IOFailure (S3List (Some ''mysql-backups/'')))] @
         [Do (HttpGet ''https://hc-ping.com/uuid'')], Inr ()) \<and>
      list_all working_event pre)"
proof -
  have a1: "io_fails env_upload_fails (S3Put ''mysql-backups/full_backup_20240101.tar.gz'')"
    by (simp add: env_upload_fails_def)
  have a2: "Do (S3Put ''mysql-backups/full_backup_20240101.tar.gz'')
              \<in> set (fst (runBackup IndexJs env_upload_fails cfg0 [] clock_0))"
    unfolding tick_upload_fails by simp
  have b1: "io_fails env_list_fails (S3List (Some ''mysql-backups/''))"
    by (simp add: env_list_fails_def)
  have b2: "is_sweep_call (S3List (Some ''mysql-backups/''))"
    by (simp add: is_sweep_call_def)
  have b3: "Do (S3List (Some ''mysql-backups/''))
              \<in> set (fst (runBackup IndexJs env_list_fails cfg0 root_valid clock_0))"
    unfolding tick_list_fails by simp
  have b4: "(if healthCheckUrl cfg0 = [] then []
             else if io_fails env_list_fails (HttpGet (healthCheckUrl cfg0))
             then [Do (HttpGet (healthCheckUrl cfg0)),
                   LogError ''Failed to ping healthcheck:''
                     (IOFailure (HttpGet (healthCheckUrl cfg0)))]
             else [Do (HttpGet (healthCheckUrl cfg0))]) = [Do (HttpGet ''https://hc-ping.com/uuid'')]"
    by (simp add: cfg0_def env_list_fails_def)
  from store_failure_fatality
         [of "''mysql-backups/full_backup_20240101.tar.gz''" IndexJs env_upload_fails cfg0 "[]" clock_0]
       a1 a2
  have c1: "\<exists>pre label.
      runBackup IndexJs env_upload_fails cfg0 [] clock_0 =
        (pre @ [Do (S3Put ''mysql-backups/full_backup_20240101.tar.gz''),
                LogError label (IOFailure (S3Put ''mysql-backups/full_backup_20240101.tar.gz'')),
                LogError ''Backup failed:''
                  (IOFailure (S3Put ''mysql-backups/full_backup_20240101.tar.gz'')),
                Exit 1], Inr ()) \<and>
      (label = ''Error during full backup:'' \<or> label = ''Error during incremental backup:'') \<and>
      list_all local_event pre"
    by blast
  from store_failure_fatality
         [of _ IndexJs env_list_fails cfg0 root_valid clock_0 "S3List (Some ''mysql-backups/'')"]
       b1 b2 b3
  have c2: "\<exists>pre.
      runBackup IndexJs env_list_fails cfg0 root_valid clock_0 =
        (pre @ [Do (S3List (Some ''mysql-backups/'')),
                LogError ''Error cleaning up old backups:''
                  (IOFailure (S3List (Some ''mysql-backups/'')))] @
         [Do (HttpGet ''https://hc-ping.com/uuid'')], Inr ()) \<and>
      list_all working_event pre"
    unfolding b4 by blast
  show ?thesis using a1 a2 b1 b2 b3 c1 c2 by blast
qed

text \<open>
  The claim as worded fails on a tick whose list call throws during the Retention Sweep:
  the failure is logged, nothing exits, and the liveness ping is sent.
\<close>

theorem store_failure_fatality_counterexample:
  "io_fails env_list_fails (S3List (Some ''mysql-backups/'')) \<and>
   runBackup IndexJs env_list_fails cfg0 root_valid clock_0 =
    ([Do (FsAccess ''/tmp/mysql-backup-1/full_backup_20240101''),
      Do (FsAccess ''/tmp/mysql-backup-1/full_backup_20240101/xtrabackup_checkpoints''),
      Do (FsMkdir ''/tmp/mysql-backup-1/inc_backup_20240101060000''),
      Spawn ''xtrabackup''
       [''--backup'', ''--user=root'', ''--password=hunter2'', ''--host=mysql'', ''--port=3306'',
        ''--target-dir=/tmp/mysql-backup-1/inc_backup_20240101060000'',
        ''--incremental-basedir=/tmp/mysql-backup-1/full_backup_20240101'', ''--no-lock''],
      Spawn ''tar''
       [''czf'', ''/tmp/mysql-backup-1/inc_backup_20240101060000.tar.gz'', ''-C'',
        ''/tmp/mysql-backup-1/inc_backup_20240101060000'', ''.''],
      Do (FsReadFile ''/tmp/mysql-backup-1/inc_backup_20240101060000.tar.gz''),
      Do (S3Put ''mysql-backups/inc_backup_20240101060000.tar.gz''),
      Do (FsUnlink ''/tmp/mysql-backup-1/inc_backup_20240101060000.tar.gz''),
      Do (FsRm ''/tmp/mysql-backup-1/inc_backup_20240101060000''),
      Do (S3List (Some ''mysql-backups/'')),
      LogError ''Error cleaning up old backups:'' (IOFailure (S3List (Some ''mysql-backups/''))),
      Do (HttpGet ''https://hc-ping.com/uuid'')],
     Inr ())"
  by code_simp
section \<open>Where the two scheduler variants differ\<close>

text \<open>The probe of \<^verbatim>\<open>index.js\<close> answers with the directory only when the marker is there.\<close>

lemma probe_index_js:
  "snd (getCurrentFullBackupDir IndexJs cfg root now) =
     Inr (case map_of root (''full_backup_'' @ formatDate now) of
            None \<Rightarrow> None
          | Some n \<Rightarrow>
              if has_entry n ''xtrabackup_checkpoints''
              then Some (path_join (backupRoot cfg) (''full_backup_'' @ formatDate now))
              else None)"
  by (simp add: getCurrentFullBackupDir_def Let_def split: option.splits)

text \<open>The probe of \<^verbatim>\<open>part_000\<close> answers with the directory whenever it exists.\<close>

lemma probe_part_000:
  "snd (getCurrentFullBackupDir Part000 cfg root now) =
     Inr (case map_of root (''full_backup_'' @ formatDate now) of
            None \<Rightarrow> None
          | Some n \<Rightarrow> Some (path_join (backupRoot cfg) (''full_backup_'' @ formatDate now)))"
  by (simp add: getCurrentFullBackupDir_def Let_def split: option.splits)

text \<open>
  C4, at the failing input. Today's directory exists without the completion marker
  (a full backup that started and did not finish). \<^verbatim>\<open>part_000\<close> takes it for a base
  and runs the Incremental Backup Procedure against it; \<^verbatim>\<open>index.js\<close>, on the same
  working root, runs the Full Backup Procedure.
\<close>

theorem unfinished_base_part_000:
  "map_of root_unfinished (''full_backup_'' @ formatDate (probe_time clock_0)) = Some (Dir [''ibdata1'']) \<and>
   \<not> has_entry (Dir [''ibdata1'']) ''xtrabackup_checkpoints'' \<and>
   spawns (fst (runBackup Part000 ok_env cfg0 root_unfinished clock_0)) =
     [(''xtrabackup'',
       [''--backup'', ''--user=root'', ''--password=hunter2'', ''--host=mysql'',
        ''--target-dir=/tmp/mysql-backup-1/inc_backup_20240101060000'',
        ''--incremental-basedir=/tmp/mysql-backup-1/full_backup_20240101'', ''--no-lock'']),
      (''tar'',
       [''czf'', ''/tmp/mysql-backup-1/inc_backup_20240101060000.tar.gz'', ''-C'',
        ''/tmp/mysql-backup-1/inc_backup_20240101060000'', ''.''])] \<and>
   spawns (fst (runBackup IndexJs ok_env cfg0 root_unfinished clock_0)) =
     [(''xtrabackup'',
       [''--backup'', ''--user=root'', ''--password=hunter2'', ''--host=mysql'', ''--port=3306'',
        ''--target-dir=/tmp/mysql-backup-1/full_backup_20240101'', ''--no-lock'']),
      (''tar'',
       [''czf'', ''/tmp/mysql-backup-1/full_backup_20240101.tar.gz'', ''-C'',
        ''/tmp/mysql-backup-1/full_backup_20240101'', ''.''])]"
  by code_simp

text \<open>
  The redaction of \<^verbatim>\<open>index.js\<close> and \<^verbatim>\<open>restore.js\<close>: the arguments that reach the
  error message do not depend on the password.
\<close>

lemma safeArgs_hides_password:
  assumes "v \<noteq> Part000"
  shows "safeArgs v (backupArgs v (cfg \<lparr> dbPassword := p \<rparr>) @ rest) =
         safeArgs v (backupArgs v (cfg \<lparr> dbPassword := q \<rparr>) @ rest)"
  using assms by (simp add: safeArgs_def backupArgs_def startsWith_def)

text \<open>
  C8, at the failing input. The engine exits with code 1 during a full backup.
  \<^verbatim>\<open>part_000\<close> writes the command line to the error stream as it is, twice, with the
  database password in it; \<^verbatim>\<open>index.js\<close> writes it masked.
\<close>

theorem password_surfaced_part_000:
  "dbPassword cfg0 = ''hunter2'' \<and>
   error_texts (fst (runBackup Part000 env_engine_fails cfg0 [] clock_0)) =
     [''xtrabackup --backup --user=root --password=hunter2 --host=mysql --target-dir=/tmp/mysql-backup-1/full_backup_20240101 --no-lock failed with exit code 1'',
      ''xtrabackup --backup --user=root --password=hunter2 --host=mysql --target-dir=/tmp/mysql-backup-1/full_backup_20240101 --no-lock failed with exit code 1''] \<and>
   list_all (\<lambda>m. contains m (dbPassword cfg0))
     (error_texts (fst (runBackup Part000 env_engine_fails cfg0 [] clock_0))) \<and>
   error_texts (fst (runBackup IndexJs env_engine_fails cfg0 [] clock_0)) =
     [''xtrabackup --backup --user=root --password=*** --host=mysql --port=3306 --target-dir=/tmp/mysql-backup-1/full_backup_20240101 --no-lock failed with exit code 1'',
      ''xtrabackup --backup --user=root --password=*** --host=mysql --port=3306 --target-dir=/tmp/mysql-backup-1/full_backup_20240101 --no-lock failed with exit code 1'']"
  by code_simp

section \<open>The calendar\<close>

text \<open>
  \<open>YearFromDay\<close> computes the year that ECMAScript specifies: the one whose first day
  is not after \<open>d\<close> while the next year's is.
\<close>

lemma div_step:
  assumes "0 < (n::int)"
  shows "(a + 1) div n = a div n + (if (a + 1) mod n = 0 then 1 else 0)"
proof (cases "a mod n + 1 < n")
  case True
  have e: "a + 1 = n * (a div n) + (a mod n + 1)" by simp
  have r: "0 \<le> a mod n + 1" using assms by (simp add: add_nonneg_nonneg)
  have "(a + 1) div n = a div n" using int_div_pos_eq [OF e r True] .
  moreover have "(a + 1) mod n = a mod n + 1" using int_mod_pos_eq [OF e r True] .
  moreover have "a mod n + 1 \<noteq> 0" using assms pos_mod_sign [of n a] by linarith
  ultimately show ?thesis by simp
next
  case False
  then have m: "a mod n + 1 = n" using assms pos_mod_bound [of n a] by linarith
  have e: "a + 1 = n * (a div n + 1) + 0"
  proof -
    have "a + 1 = n * (a div n) + (a mod n + 1)" by simp
    also have "\<dots> = n * (a div n) + n" using m by simp
    finally show ?thesis by (simp add: algebra_simps)
  qed
  have "(a + 1) div n = a div n + 1" using int_div_pos_eq [OF e] assms by simp
  moreover have "(a + 1) mod n = 0" using int_mod_pos_eq [OF e] assms by simp
  ultimately show ?thesis by simp
qed

lemma mod_shift: "((y::int) - n * k) mod n = y mod n"
proof -
  have "(y - n * k) mod n = (y + n * (- k)) mod n" by simp
  also have "\<dots> = y mod n" by (rule mod_mult_self2)
  finally show ?thesis .
qed

lemma DayFromYear_Suc: "DayFromYear (y + 1) = DayFromYear y + DaysInYear y"
proof -
  have m4: "(y - 1968) mod 4 = y mod 4" using mod_shift [of y 4 492] by simp
  have m100: "(y - 1900) mod 100 = y mod 100" using mod_shift [of y 100 19] by simp
  have m400: "(y - 1600) mod 400 = y mod 400" using mod_shift [of y 400 4] by simp
  have a: "(y + 1 - 1969) div 4 = (y - 1969) div 4 + (if y mod 4 = 0 then 1 else 0)"
    using div_step [of 4 "y - 1969"] m4 by (simp add: algebra_simps)
  have b: "(y + 1 - 1901) div 100 = (y - 1901) div 100 + (if y mod 100 = 0 then 1 else 0)"
    using div_step [of 100 "y - 1901"] m100 by (simp add: algebra_simps)
  have c: "(y + 1 - 1601) div 400 = (y - 1601) div 400 + (if y mod 400 = 0 then 1 else 0)"
    using div_step [of 400 "y - 1601"] m400 by (simp add: algebra_simps)
  have d1: "y mod 100 = 0" if "y mod 400 = 0"
    using that mod_mod_cancel [of 100 400 y] by simp
  have d2: "y mod 4 = 0" if "y mod 100 = 0"
    using that mod_mod_cancel [of 4 100 y] by simp
  define A where "A = (y - 1969) div 4"
  define B where "B = (y - 1901) div 100"
  define C where "C = (y - 1601) div 400"
  have l: "DayFromYear (y + 1) =
      365 * (y + 1 - 1970) + (A + (if y mod 4 = 0 then 1 else 0))
        - (B + (if y mod 100 = 0 then 1 else 0)) + (C + (if y mod 400 = 0 then 1 else 0))"
    unfolding DayFromYear_def a b c A_def B_def C_def by (rule refl)
  have r: "DayFromYear y = 365 * (y - 1970) + A - B + C"
    unfolding DayFromYear_def A_def B_def C_def by (rule refl)
  show ?thesis
  proof (cases "y mod 4 = 0")
    case False
    have n100: "y mod 100 \<noteq> 0" using False d2 by auto
    have n400: "y mod 400 \<noteq> 0" using n100 d1 by auto
    from False n100 n400 show ?thesis unfolding l r DaysInYear_def InLeapYear_def by simp
  next
    case True
    show ?thesis
    proof (cases "y mod 100 = 0")
      case F: False
      with d1 have "y mod 400 \<noteq> 0" by auto
      with True F show ?thesis unfolding l r DaysInYear_def InLeapYear_def by simp
    next
      case T: True
      show ?thesis using True T unfolding l r DaysInYear_def InLeapYear_def
        by (cases "y mod 400 = 0") simp_all
    qed
  qed
qed

lemma DaysInYear_pos: "365 \<le> DaysInYear y" "DaysInYear y \<le> 366"
  by (simp_all add: DaysInYear_def)

lemma DayFromYear_mono_aux: "DayFromYear y + 365 * int n \<le> DayFromYear (y + int n)"
proof (induction n)
  case 0
  then show ?case by simp
next
  case (Suc n)
  have "DayFromYear (y + int (Suc n)) = DayFromYear (y + int n) + DaysInYear (y + int n)"
    using DayFromYear_Suc [of "y + int n"] by (simp add: algebra_simps)
  with Suc DaysInYear_pos(1) [of "y + int n"] show ?case by simp
qed

lemma DayFromYear_strict_mono: "y < y' \<Longrightarrow> DayFromYear y < DayFromYear y'"
proof -
  assume "y < y'"
  define n where "n = nat (y' - y)"
  have n: "y' = y + int n" "0 < n" using \<open>y < y'\<close> by (simp_all add: n_def)
  with DayFromYear_mono_aux [of y n] show ?thesis by simp
qed

lemma DayFromYear_unique:
  assumes "DayFromYear y \<le> d" "d < DayFromYear (y + 1)"
    and "DayFromYear y' \<le> d" "d < DayFromYear (y' + 1)"
  shows "y = y'"
proof (rule ccontr)
  assume "y \<noteq> y'"
  then consider "y + 1 \<le> y'" | "y' + 1 \<le> y" by linarith
  then show False
  proof cases
    case 1
    then have "DayFromYear (y + 1) \<le> DayFromYear y'"
      using DayFromYear_strict_mono [of "y + 1" y'] by (cases "y + 1 = y'") auto
    with assms show False by linarith
  next
    case 2
    then have "DayFromYear (y' + 1) \<le> DayFromYear y"
      using DayFromYear_strict_mono [of "y' + 1" y] by (cases "y' + 1 = y") auto
    with assms show False by linarith
  qed
qed

lemma DayFromYear_approx:
  "400 * DayFromYear y \<le> 146097 * (y - 1970) + 589"
  "146097 * (y - 1970) - 506 \<le> 400 * DayFromYear y"
proof -
  define a where "a = (y - 1969) div 4"
  define b where "b = (y - 1901) div 100"
  define c where "c = (y - 1601) div 400"
  have a: "4 * a \<le> y - 1969" "y - 1969 \<le> 4 * a + 3"
    unfolding a_def using pos_mod_sign [of 4 "y - 1969"] pos_mod_bound [of 4 "y - 1969"]
    by (simp_all add: minus_mod_eq_mult_div [symmetric] algebra_simps)
  have b: "100 * b \<le> y - 1901" "y - 1901 \<le> 100 * b + 99"
    unfolding b_def using pos_mod_sign [of 100 "y - 1901"] pos_mod_bound [of 100 "y - 1901"]
    by (simp_all add: minus_mod_eq_mult_div [symmetric] algebra_simps)
  have c: "400 * c \<le> y - 1601" "y - 1601 \<le> 400 * c + 399"
    unfolding c_def using pos_mod_sign [of 400 "y - 1601"] pos_mod_bound [of 400 "y - 1601"]
    by (simp_all add: minus_mod_eq_mult_div [symmetric] algebra_simps)
  have e: "400 * DayFromYear y = 146000 * y - 287620000 + 400 * a - 400 * b + 400 * c"
    by (simp add: DayFromYear_def a_def b_def c_def)
  show "400 * DayFromYear y \<le> 146097 * (y - 1970) + 589"
    unfolding e using a(1) b(2) c(1) by (simp add: algebra_simps)
  show "146097 * (y - 1970) - 506 \<le> 400 * DayFromYear y"
    unfolding e using a(2) b(1) c(2) by (simp add: algebra_simps)
qed

lemma YearFromDay_bounds:
  "DayFromYear (YearFromDay d) \<le> d \<and> d < DayFromYear (YearFromDay d + 1)"
proof -
  define q where "q = (400 * d) div 146097"
  define y0 where "y0 = 1970 + q"
  have q: "146097 * q \<le> 400 * d" "400 * d < 146097 * q + 146097"
    unfolding q_def using pos_mod_sign [of 146097 "400 * d"] pos_mod_bound [of 146097 "400 * d"]
    by (simp_all add: minus_mod_eq_mult_div [symmetric] algebra_simps)
  have Y: "YearFromDay d =
     (if d < DayFromYear y0 then y0 - 1 else if DayFromYear (y0 + 1) \<le> d then y0 + 1 else y0)"
    by (simp add: YearFromDay_def y0_def q_def Let_def)
  show ?thesis
  proof (cases "d < DayFromYear y0")
    case True
    then have r: "YearFromDay d = y0 - 1" by (simp add: Y)
    have "400 * DayFromYear (y0 - 1) \<le> 146097 * q - 145508"
      using DayFromYear_approx(1) [of "y0 - 1"] by (simp add: y0_def)
    with q(1) have "400 * DayFromYear (y0 - 1) \<le> 400 * d" by linarith
    then have "DayFromYear (y0 - 1) \<le> d" by simp
    with True show ?thesis unfolding r by simp
  next
    case False
    show ?thesis
    proof (cases "DayFromYear (y0 + 1) \<le> d")
      case True
      then have r: "YearFromDay d = y0 + 1" using False by (simp add: Y)
      have "146097 * q + 291688 \<le> 400 * DayFromYear (y0 + 1 + 1)"
        using DayFromYear_approx(2) [of "y0 + 1 + 1"] by (simp add: y0_def)
      with q(2) have "400 * d < 400 * DayFromYear (y0 + 1 + 1)" by linarith
      then have "d < DayFromYear (y0 + 1 + 1)" by simp
      with True show ?thesis unfolding r by simp
    next
      case F2: False
      then have r: "YearFromDay d = y0" using False by (simp add: Y)
      show ?thesis unfolding r using False F2 by simp
    qed
  qed
qed

lemma YearFromDay_eq:
  assumes "DayFromYear y \<le> d" "d < DayFromYear (y + 1)"
  shows "YearFromDay d = y"
  using DayFromYear_unique [OF _ _ assms] YearFromDay_bounds [of d] by blast

lemma month_cases:
  assumes "m < 12"
  obtains "m = 0" | "m = 1" | "m = 2" | "m = 3" | "m = 4" | "m = 5" | "m = 6"
    | "m = 7" | "m = 8" | "m = 9" | "m = 10" | "m = (11::nat)"
  using assms by (auto simp: less_Suc_eq eval_nat_numeral)

lemma DaysBeforeMonth_simps:
  "DaysBeforeMonth l 0 = 0"
  "DaysBeforeMonth l 1 = 31"
  "DaysBeforeMonth l 2 = 59 + (if l then 1 else 0)"
  "DaysBeforeMonth l 3 = 90 + (if l then 1 else 0)"
  "DaysBeforeMonth l 4 = 120 + (if l then 1 else 0)"
  "DaysBeforeMonth l 5 = 151 + (if l then 1 else 0)"
  "DaysBeforeMonth l 6 = 181 + (if l then 1 else 0)"
  "DaysBeforeMonth l 7 = 212 + (if l then 1 else 0)"
  "DaysBeforeMonth l 8 = 243 + (if l then 1 else 0)"
  "DaysBeforeMonth l 9 = 273 + (if l then 1 else 0)"
  "DaysBeforeMonth l 10 = 304 + (if l then 1 else 0)"
  "DaysBeforeMonth l 11 = 334 + (if l then 1 else 0)"
  "DaysBeforeMonth l 12 = 365 + (if l then 1 else 0)"
  by (simp_all add: DaysBeforeMonth_def)


lemma MonthFromDay_unique:
  assumes "m < 12" "DaysBeforeMonth l m \<le> d" "d < DaysBeforeMonth l (Suc m)"
  shows "MonthFromDay l d = m"
  using assms(1)
proof (cases rule: month_cases)
qed (use assms(2,3) in \<open>cases l; simp add: MonthFromDay_def DaysBeforeMonth_def Let_def\<close>)+













section \<open>Keys and the dates derived from them\<close>































text \<open>
  C5, at the failing input. The scheduler names the incremental taken at
  2024-01-01T06:00:00Z \<^verbatim>\<open>inc_backup_20240101060000.tar.gz\<close>. On a restore host eight
  hours east of UTC, \<^verbatim>\<open>listBackups\<close> reads that key as 06:00 local time, which is
  2023-12-31T22:00:00Z: the record's timestamp is not the one that was encoded.
  (\<open>decode_encode\<close> gives the general law: the decoded value is the encoded one without
  its milliseconds, less the host's local offset; the two agree where that offset is 0.)
\<close>

theorem decode_shifted_by_local_offset:
  "formatDateTime 1704088800000 = ''20240101060000'' \<and>
   date (to_backup host_utc8
           \<lparr> Key = ''mysql-backups/inc_backup_20240101060000.tar.gz'', Size = 204800,
             LastModified = Some 1704088860000 \<rparr>) = Some 1704060000000 \<and>
   toISOString 1704060000000 = ''2023-12-31T22:00:00.000Z'' \<and>
   date (to_backup host_utc
           \<lparr> Key = ''mysql-backups/inc_backup_20240101060000.tar.gz'', Size = 204800,
             LastModified = Some 1704088860000 \<rparr>) = Some 1704088800000"
  by code_simp

section \<open>The restore tool: chain resolution\<close>

lemma sanitize_no_dash: "CHR ''-'' \<notin> set s \<Longrightarrow> sanitize s = s"
proof (induction s)
  case Nil
  show ?case by (simp add: sanitize.simps)
next
  case (Cons c cs)
  then have c: "c \<noteq> CHR ''-''" and cs: "sanitize cs = cs" by auto
  from c have n: "\<not> startsWith (c # cs) ''--password=''" by (simp add: startsWith_def)
  have "sanitize (c # cs) = c # sanitize cs"
    by (subst sanitize.simps(2)) (simp only: Let_def n simp_thms if_False)
  with cs show ?case by simp
qed

lemma formatDate_no_dash: "CHR ''-'' \<notin> set (formatDate t)"
  by (simp add: formatDate_def remove_chars_def)

lemma sanitize_missing_base:
  "sanitizeError (missing_base (formatDate t)) = missing_base (formatDate t)"
proof -
  let ?m = "''Cannot find full backup for date '' @ formatDate t @
            ''. Incremental backups cannot be restored without their base full backup.''"
  have "CHR ''-'' \<notin> set ?m" using formatDate_no_dash [of t] by simp
  then have "sanitize ?m = ?m" by (rule sanitize_no_dash)
  then show ?thesis unfolding sanitizeError_def missing_base_def by (simp only: js_error.case)
qed

lemma missing_base_thrown: "missing_base d \<noteq> ProcessEnded"
  by (simp add: missing_base_def)



lemma listBackups_returns:
  assumes "snd (listBackups h e cfg) = Inr backups"
  shows "listBackups h e cfg = ([Do (S3List (Some (list_prefix cfg)))], Inr backups)"
  using assms
  by (auto simp: listBackups_def prod_eq_iff run_simps split: if_splits option.splits)

lemma restore_main_pick:
  assumes "snd (listBackups h e cfg) = Inr backups" "list_all (\<lambda>b. date b \<noteq> None) backups"
    "1 \<le> n" "n \<le> int (length backups)"
  shows "restore_main h e cfg (Pick n) proceed =
     catch
       (bind ([Do (S3List (Some (list_prefix cfg)))], Inr ()) (\<lambda>_.
          bind (lift (findRelatedBackups backups (backups ! nat (n - 1)))) (\<lambda>backupsToRestore.
             if \<not> proceed then ret ()
             else seq [ perform e (FsMkdir (restoreRoot cfg)),
                        restoreBackups e cfg backupsToRestore ])))
       (\<lambda>err. seq [logError RestoreJs ''Restore failed:'' err, emit (Exit 1)])"
proof -
  have l: "length backups \<noteq> 0" using assms(3,4) by auto
  have r: "\<not> (n - 1 < 0 \<or> int (length backups) \<le> n - 1)" using assms(3,4) by auto
  have d: "\<not> list_ex (\<lambda>b. date b = None) backups"
    using assms(2) by (simp add: list_all_iff list_ex_iff)
  show ?thesis
    unfolding restore_main_def listBackups_returns [OF assms(1)]
    using l r d by (simp add: Let_def bind_def)
qed



lemma sorted_full_day: "sorted_backups host_utc listing_full_day = catalog_full_day"
  by code_simp


text \<open>
  C6, at the failing input. A day with its Full and 21 hourly incrementals is in the
  store: 22 archives. \<^verbatim>\<open>main\<close> resolves the chain against what \<^verbatim>\<open>listBackups\<close>
  returned, the 20 most recent records, and the Full of the day is not among them. The
  operator selects entry 1, the incremental of 21:00, and the restore fails for want of
  a Full that is in the store; resolved against the whole catalog, the same target has
  the chain of all 22 archives.
\<close>

theorem cap_hides_base:
  "length (sorted_backups host_utc listing_full_day) = 22 \<and>
   filename (sorted_backups host_utc listing_full_day ! 0) = ''inc_backup_20240101210000.tar.gz'' \<and>
   filename (sorted_backups host_utc listing_full_day ! 21) = ''full_backup_20240101.tar.gz'' \<and>
   snd (listBackups host_utc (env_with listing_full_day) cfg0) =
     Inr (take 20 (sorted_backups host_utc listing_full_day)) \<and>
   findRelatedBackups (take 20 (sorted_backups host_utc listing_full_day))
       (take 20 (sorted_backups host_utc listing_full_day) ! 0) =
     Inl (missing_base ''20240101'') \<and>
   map_sum id (map filename)
     (findRelatedBackups (sorted_backups host_utc listing_full_day)
        (sorted_backups host_utc listing_full_day ! 0)) =
     Inr (''full_backup_20240101.tar.gz'' #
          map (\<lambda>hour. ''inc_backup_20240101'' @ pad 2 hour @ ''0000.tar.gz'') [1 ..< 22]) \<and>
   restore_main host_utc (env_with listing_full_day) cfg0 (Pick 1) True =
     ([Do (S3List (Some ''mysql-backups/'')),
       LogError ''Restore failed:'' (missing_base ''20240101''), Exit 1], Inr ())"
proof -
  note s = sorted_full_day
  have d: "formatDate 1704142800000 = ''20240101''"
    by code_simp
  have c1: "length catalog_full_day = 22"
    by code_simp
  have c2: "filename (catalog_full_day ! 0) = ''inc_backup_20240101210000.tar.gz''"
    by code_simp
  have c3: "filename (catalog_full_day ! 21) = ''full_backup_20240101.tar.gz''"
    by code_simp
  have c4: "snd (listBackups host_utc (env_with listing_full_day) cfg0) =
              Inr (take 20 (sorted_backups host_utc listing_full_day))"
    by (simp add: listBackups_def run_simps env_with_def listing_full_day_def)
  have c5: "findRelatedBackups (take 20 catalog_full_day) (take 20 catalog_full_day ! 0) =
              Inl (missing_base ''20240101'')"
    by code_simp
  have c6: "map_sum id (map filename)
     (findRelatedBackups catalog_full_day (catalog_full_day ! 0)) =
     Inr (''full_backup_20240101.tar.gz'' #
          map (\<lambda>hour. ''inc_backup_20240101'' @ pad 2 hour @ ''0000.tar.gz'') [1 ..< 22])"
    by code_simp
  have b: "list_all (\<lambda>b. date b \<noteq> None) (take 20 catalog_full_day)"
    "(1::int) \<le> 1" "1 \<le> int (length (take 20 catalog_full_day))"
    by code_simp+
  have p: "list_prefix cfg0 = ''mysql-backups/''"
    by code_simp
  have c7: "restore_main host_utc (env_with listing_full_day) cfg0 (Pick 1) True =
     ([Do (S3List (Some ''mysql-backups/'')),
       LogError ''Restore failed:'' (missing_base ''20240101''), Exit 1], Inr ())"
    unfolding restore_main_pick [OF c4 [unfolded s] b]
    using c5 sanitize_missing_base [of 1704142800000] missing_base_thrown [of "''20240101''"]
    unfolding d p
    by (simp add: prod_eq_iff run_simps seq_simps)
  show ?thesis
    unfolding s using c1 c2 c3 c4 [unfolded s] c5 c6 c7 by simp
qed
























end
